theory Spec2Isabelle
  imports Main "HOL-Library.AList" "HOL-Library.Char_ord" "HOL-Library.List_Lexorder"
    "HOL-Library.Sublist"
begin

section \<open>Data model\<close>

text \<open>
  Paths, blob ids and blob contents are strings. A feature is a Python dict from column
  name to value; dict equality ignores insertion order, so a feature is a map. The type
  \<open>'v\<close> stands for the Python values stored in a feature (one of them is the primary
  key). Python's builtin \<open>str\<close> is passed to the functions that call it as \<open>py_str\<close>.
\<close>

type_synonym path = string
type_synonym oid = string
type_synonym bytes = string
type_synonym 'v feature = "string \<rightharpoonup> 'v"

datatype exit_code = PATCH_DOES_NOT_APPLY | INVALID_OPERATION

datatype error =
    NotImplementedError
  | NotYetImplemented
  | InvalidOperation exit_code
  | KeyError
  | IndexError
  | AttributeError
  | NotADataRecord

text \<open>
  A \<open>DatasetStructure\<close>. \<open>tree\<close> is the dataset's git tree, flattened to its blobs in
  path order. The methods that the subclasses of \<open>DatasetStructure\<close> implement
  (\<open>decode_path_to_1pk\<close>, \<open>get_feature\<close>, \<open>encode_1pk_to_path\<close>, \<open>encode_feature\<close>) and
  the properties read from the meta items (\<open>primary_key\<close>, \<open>geom_column_name\<close>) are
  fields. \<open>get_feature\<close> takes the keyword argument \<open>ogr_geoms\<close> as an option, \<open>None\<close>
  when the caller leaves it out; its result is \<open>None\<close> where it raises \<open>KeyError\<close>, which
  it does for a feature that is not stored.
\<close>

record 'v dataset =
  path :: path
  tree :: "(path \<times> oid) list"
  primary_key :: string
  geom_column_name :: "string option"
  decode_path_to_1pk :: "path \<Rightarrow> error + 'v"
  get_feature :: "'v \<Rightarrow> bool option \<Rightarrow> 'v feature option"
  encode_1pk_to_path :: "'v \<Rightarrow> path"
  encode_feature :: "'v feature \<Rightarrow> path \<times> bytes"

text \<open>
  The data of a \<open>Diff\<close> for one dataset, as \<open>Diff(self, meta=.., inserts=..,
  deletes=.., updates=..)\<close> stores it and \<open>write_index\<close> reads it back under the keys
  \<open>"META"\<close>, \<open>"I"\<close>, \<open>"D"\<close>, \<open>"U"\<close>. Dicts whose order of iteration matters are
  association lists in insertion order.
\<close>

record 'v dataset_diff =
  META :: "(string \<times> string) list"
  I :: "'v feature list"
  D :: "(string \<times> 'v feature) list"
  U :: "(string \<times> 'v feature \<times> 'v feature) list"

section \<open>write_index (sno/structure.py, lines 626-701)\<close>

text \<open>
  The state that \<open>write_index\<close> mutates: the \<open>pygit2.Index\<close> (path to blob id and file
  mode), the blobs created in the repository, and the lines written by \<open>click.echo\<close>.
\<close>

datatype filemode = GIT_FILEMODE_BLOB | GIT_FILEMODE_BLOB_EXECUTABLE | GIT_FILEMODE_LINK

record wstate =
  index :: "path \<rightharpoonup> oid \<times> filemode"
  odb :: "oid \<rightharpoonup> bytes"
  echoed :: "string list"

text \<open>
  What a call does: it returns a value, or it raises. The index, the repository and the
  output are mutated in place, so both carry the state as the call leaves it.
\<close>

datatype 'a outcome = Returned 'a wstate | Raised error wstate

text \<open>\<open>repo.create_blob(data)\<close>: stores the blob and returns its id, \<open>blob_id data\<close>.\<close>

definition create_blob :: "(bytes \<Rightarrow> oid) \<Rightarrow> bytes \<Rightarrow> wstate \<Rightarrow> oid \<times> wstate" where
  "create_blob blob_id data st = (blob_id data, st\<lparr>odb := (odb st)(blob_id data \<mapsto> data)\<rparr>)"

definition echo :: "string \<Rightarrow> wstate \<Rightarrow> wstate" where
  "echo line st = st\<lparr>echoed := echoed st @ [line]\<rparr>"

definition index_remove :: "path \<Rightarrow> wstate \<Rightarrow> wstate" where
  "index_remove p st = st\<lparr>index := (index st)(p := None)\<rparr>"

definition index_add :: "path \<Rightarrow> oid \<Rightarrow> filemode \<Rightarrow> wstate \<Rightarrow> wstate" where
  "index_add p b m st = st\<lparr>index := (index st)(p \<mapsto> (b, m))\<rparr>"

text \<open>\<open>d.pop(k)\<close> on a dict: \<open>KeyError\<close> when the key is absent.\<close>

definition dict_pop :: "string \<Rightarrow> 'v feature \<Rightarrow> error + 'v feature" where
  "dict_pop k f = (case f k of None \<Rightarrow> Inl KeyError | Some _ \<Rightarrow> Inr (f(k := None)))"

text \<open>The loop over \<open>dataset_diff["D"].items()\<close> (lines 641-648).\<close>

fun write_deletes ::
  "('v \<Rightarrow> string) \<Rightarrow> 'v dataset \<Rightarrow> (string \<times> 'v feature) list \<Rightarrow> bool \<Rightarrow> wstate
     \<Rightarrow> bool outcome" where
  "write_deletes py_str ds [] conflicts st = Returned conflicts st"
| "write_deletes py_str ds ((_, old_feature) # rest) conflicts st =
     (case old_feature (primary_key ds) of
        None \<Rightarrow> Raised KeyError st
      | Some pk \<Rightarrow>
          (let feature_path = encode_1pk_to_path ds pk in
           if index st feature_path = None
           then write_deletes py_str ds rest
                  True (echo (path ds @ '': Trying to delete nonexistent feature: '' @ py_str pk) st)
           else write_deletes py_str ds rest conflicts (index_remove feature_path st)))"

text \<open>The loop over \<open>dataset_diff["I"]\<close> (lines 650-661).\<close>

fun write_inserts ::
  "('v \<Rightarrow> string) \<Rightarrow> (bytes \<Rightarrow> oid) \<Rightarrow> 'v dataset \<Rightarrow> 'v feature list \<Rightarrow> bool \<Rightarrow> wstate
     \<Rightarrow> bool outcome" where
  "write_inserts py_str blob_id ds [] conflicts st = Returned conflicts st"
| "write_inserts py_str blob_id ds (new_feature # rest) conflicts st =
     (case new_feature (primary_key ds) of
        None \<Rightarrow> Raised KeyError st
      | Some pk \<Rightarrow>
          (let (feature_path, feature_data) = encode_feature ds new_feature in
           if index st feature_path \<noteq> None
           then write_inserts py_str blob_id ds rest
                  True (echo (path ds @ '': Trying to create feature that already exists: ''
                                 @ py_str pk) st)
           else (let (blob, st1) = create_blob blob_id feature_data st in
                 write_inserts py_str blob_id ds rest
                   conflicts (index_add feature_path blob GIT_FILEMODE_BLOB st1))))"

text \<open>
  The comparison of the stored feature with the expected old one (lines 674-683): when
  \<open>geom_column_name\<close> is truthy (neither \<open>None\<close> nor the empty string), the column is
  popped from both before they are compared. The result is \<open>True\<close> when they differ.
\<close>

fun already_changed ::
  "string option \<Rightarrow> 'v feature \<Rightarrow> 'v feature \<Rightarrow> error + bool" where
  "already_changed None actual_existing_feature old_feature =
     Inr (actual_existing_feature \<noteq> old_feature)"
| "already_changed (Some geom) actual_existing_feature old_feature =
     (if geom \<noteq> []
      then (case dict_pop geom actual_existing_feature of
              Inl e \<Rightarrow> Inl e
            | Inr actual \<Rightarrow>
                (case dict_pop geom old_feature of
                   Inl e \<Rightarrow> Inl e
                 | Inr old \<Rightarrow> Inr (actual \<noteq> old)))
      else Inr (actual_existing_feature \<noteq> old_feature))"

text \<open>The loop over \<open>dataset_diff["U"].items()\<close> (lines 663-696).\<close>

fun write_updates ::
  "('v \<Rightarrow> string) \<Rightarrow> (bytes \<Rightarrow> oid) \<Rightarrow> 'v dataset \<Rightarrow> (string \<times> 'v feature \<times> 'v feature) list
     \<Rightarrow> bool \<Rightarrow> wstate \<Rightarrow> bool outcome" where
  "write_updates py_str blob_id ds [] conflicts st = Returned conflicts st"
| "write_updates py_str blob_id ds ((_, (old_feature, new_feature)) # rest) conflicts st =
     (case old_feature (primary_key ds) of
        None \<Rightarrow> Raised KeyError st
      | Some old_pk \<Rightarrow>
          (let old_feature_path = encode_1pk_to_path ds old_pk in
           if index st old_feature_path = None
           then write_updates py_str blob_id ds rest
                  True (echo (path ds @ '': Trying to update nonexistent feature: ''
                                 @ py_str old_pk) st)
           else (case get_feature ds old_pk None of
                   None \<Rightarrow> Raised KeyError st
                 | Some actual_existing_feature \<Rightarrow>
                     (case already_changed (geom_column_name ds) actual_existing_feature
                             old_feature of
                        Inl e \<Rightarrow> Raised e st
                      | Inr True \<Rightarrow>
                          write_updates py_str blob_id ds rest
                            True (echo (path ds @ '': Trying to update already-changed feature: ''
                                           @ py_str old_pk) st)
                      | Inr False \<Rightarrow>
                          (let st1 = index_remove old_feature_path st;
                               (new_feature_path, new_feature_data) = encode_feature ds new_feature;
                               (blob, st2) = create_blob blob_id new_feature_data st1
                           in write_updates py_str blob_id ds rest
                                conflicts (index_add new_feature_path blob GIT_FILEMODE_BLOB st2))))))"

definition write_index ::
  "('v \<Rightarrow> string) \<Rightarrow> (bytes \<Rightarrow> oid) \<Rightarrow> 'v dataset \<Rightarrow> 'v dataset_diff \<Rightarrow> wstate \<Rightarrow> unit outcome" where
  "write_index py_str blob_id ds dd st =
     (if META dd \<noteq> [] then Raised NotYetImplemented st
      else (case write_deletes py_str ds (D dd) False st of
              Raised e s \<Rightarrow> Raised e s
            | Returned c1 s1 \<Rightarrow>
                (case write_inserts py_str blob_id ds (I dd) c1 s1 of
                   Raised e s \<Rightarrow> Raised e s
                 | Returned c2 s2 \<Rightarrow>
                     (case write_updates py_str blob_id ds (U dd) c2 s2 of
                        Raised e s \<Rightarrow> Raised e s
                      | Returned conflicts s \<Rightarrow>
                          if conflicts then Raised (InvalidOperation PATCH_DOES_NOT_APPLY) s
                          else Returned () s))))"

subsection \<open>Apply conflicts, in the words of the specification\<close>

text \<open>
  The specification describes \<open>write_index\<close> as a batch: every delta of the diff is
  looked at, in the order deletes, inserts, updates; a delta that conflicts with the index
  is reported and left out, every other delta is applied. The definitions below say this
  directly, for comparison with the three loops above. A delete conflicts when the
  feature's path is not in the index, an insert when its path is already there, an update
  when the old path is not in the index or the content stored for the feature is not the
  expected old value.
\<close>

datatype 'v change = Delete "'v feature" | Insert "'v feature" | Update "'v feature" "'v feature"

definition changes :: "'v dataset_diff \<Rightarrow> 'v change list" where
  "changes dd = map (\<lambda>(_, old). Delete old) (D dd) @ map Insert (I dd)
                  @ map (\<lambda>(_, old, new). Update old new) (U dd)"

definition stored_path :: "'v dataset \<Rightarrow> 'v feature \<Rightarrow> path option" where
  "stored_path ds f = map_option (encode_1pk_to_path ds) (f (primary_key ds))"

definition stored_feature :: "'v dataset \<Rightarrow> 'v feature \<Rightarrow> 'v feature option" where
  "stored_feature ds f =
     (case f (primary_key ds) of None \<Rightarrow> None | Some pk \<Rightarrow> get_feature ds pk None)"

fun apply_conflict :: "'v dataset \<Rightarrow> (path \<rightharpoonup> oid \<times> filemode) \<Rightarrow> 'v change \<Rightarrow> bool" where
  "apply_conflict ds idx (Delete old) =
     (case stored_path ds old of None \<Rightarrow> False | Some p \<Rightarrow> idx p = None)"
| "apply_conflict ds idx (Insert new) = (idx (fst (encode_feature ds new)) \<noteq> None)"
| "apply_conflict ds idx (Update old new) =
     (case stored_path ds old of
        None \<Rightarrow> False
      | Some p \<Rightarrow> if idx p = None then True else stored_feature ds old \<noteq> Some old)"

fun report :: "('v \<Rightarrow> string) \<Rightarrow> 'v dataset \<Rightarrow> (path \<rightharpoonup> oid \<times> filemode) \<Rightarrow> 'v change \<Rightarrow> string" where
  "report py_str ds idx (Delete old) =
     path ds @ '': Trying to delete nonexistent feature: '' @ py_str (the (old (primary_key ds)))"
| "report py_str ds idx (Insert new) =
     path ds @ '': Trying to create feature that already exists: ''
       @ py_str (the (new (primary_key ds)))"
| "report py_str ds idx (Update old new) =
     path ds @ (if idx (the (stored_path ds old)) = None
                then '': Trying to update nonexistent feature: ''
                else '': Trying to update already-changed feature: '')
       @ py_str (the (old (primary_key ds)))"

fun apply_change :: "(bytes \<Rightarrow> oid) \<Rightarrow> 'v dataset \<Rightarrow> 'v change \<Rightarrow> wstate \<Rightarrow> wstate" where
  "apply_change blob_id ds (Delete old) st = index_remove (the (stored_path ds old)) st"
| "apply_change blob_id ds (Insert new) st =
     index_add (fst (encode_feature ds new)) (blob_id (snd (encode_feature ds new))) GIT_FILEMODE_BLOB
       (snd (create_blob blob_id (snd (encode_feature ds new)) st))"
| "apply_change blob_id ds (Update old new) st =
     index_add (fst (encode_feature ds new)) (blob_id (snd (encode_feature ds new))) GIT_FILEMODE_BLOB
       (snd (create_blob blob_id (snd (encode_feature ds new))
              (index_remove (the (stored_path ds old)) st)))"

fun apply_batch ::
  "('v \<Rightarrow> string) \<Rightarrow> (bytes \<Rightarrow> oid) \<Rightarrow> 'v dataset \<Rightarrow> 'v change list \<Rightarrow> wstate \<Rightarrow> wstate" where
  "apply_batch py_str blob_id ds [] st = st"
| "apply_batch py_str blob_id ds (c # cs) st =
     apply_batch py_str blob_id ds cs
       (if apply_conflict ds (index st) c then echo (report py_str ds (index st) c) st
        else apply_change blob_id ds c st)"

text \<open>
  The update loop of \<open>write_index\<close> leaves the geometry column out of its comparison
  (lines 674-683, with the remark that the geometries are still to be compared). The
  updates that this touches are those whose stored feature is not the expected old value
  and yet agrees with it on every other column.
\<close>

definition geometry_only_mismatch :: "'v dataset \<Rightarrow> 'v feature \<Rightarrow> bool" where
  "geometry_only_mismatch ds old =
     (case geom_column_name ds of
        None \<Rightarrow> False
      | Some g \<Rightarrow>
          g \<noteq> [] \<and>
          (case stored_feature ds old of
             None \<Rightarrow> False
           | Some actual \<Rightarrow> actual \<noteq> old \<and> actual(g := None) = old(g := None)))"

definition compared_in_full :: "'v dataset \<Rightarrow> 'v dataset_diff \<Rightarrow> bool" where
  "compared_in_full ds dd = list_all (\<lambda>(_, old, _). \<not> geometry_only_mismatch ds old) (U dd)"

section \<open>diff (sno/structure.py, lines 507-624)\<close>

subsection \<open>The tree diff of the object store\<close>

text \<open>
  \<open>diff\<close> starts from \<open>self.tree.diff_to_tree(other.tree)\<close>, which belongs to pygit2 and
  not to the repository. A delta carries a status and two files; pygit2 fills in both
  files for every delta (for an added or deleted path both have that path), and a
  \<open>DiffFile\<close> object is truthy, so the test \<open>d.old_file and ...\<close> is the test of the path.
\<close>

datatype delta_status =
    GIT_DELTA_UNMODIFIED
  | GIT_DELTA_ADDED
  | GIT_DELTA_DELETED
  | GIT_DELTA_MODIFIED
  | GIT_DELTA_RENAMED
  | GIT_DELTA_COPIED
  | GIT_DELTA_IGNORED
  | GIT_DELTA_UNTRACKED
  | GIT_DELTA_TYPECHANGE
  | GIT_DELTA_UNREADABLE

record delta =
  status :: delta_status
  old_file_path :: path
  new_file_path :: path

text \<open>
  The deltas between two flattened trees, in path order: a path of the old tree only is
  deleted, a path of the new tree only is added, a path of both whose blobs differ is
  modified. With no tree given, the other tree is the empty one; \<open>swap\<close> exchanges the
  two sides.
\<close>

fun diff_trees :: "(path \<times> oid) list \<Rightarrow> (path \<times> oid) list \<Rightarrow> delta list" where
  "diff_trees [] [] = []"
| "diff_trees ((p, a) # old) [] =
     \<lparr>status = GIT_DELTA_DELETED, old_file_path = p, new_file_path = p\<rparr> # diff_trees old []"
| "diff_trees [] ((q, b) # new) =
     \<lparr>status = GIT_DELTA_ADDED, old_file_path = q, new_file_path = q\<rparr> # diff_trees [] new"
| "diff_trees ((p, a) # old) ((q, b) # new) =
     (if p < q
      then \<lparr>status = GIT_DELTA_DELETED, old_file_path = p, new_file_path = p\<rparr>
             # diff_trees old ((q, b) # new)
      else if q < p
      then \<lparr>status = GIT_DELTA_ADDED, old_file_path = q, new_file_path = q\<rparr>
             # diff_trees ((p, a) # old) new
      else if a = b then diff_trees old new
      else \<lparr>status = GIT_DELTA_MODIFIED, old_file_path = p, new_file_path = p\<rparr>
             # diff_trees old new)"

definition diff_to_tree :: "(path \<times> oid) list \<Rightarrow> (path \<times> oid) list \<Rightarrow> bool \<Rightarrow> delta list" where
  "diff_to_tree self_tree other_tree swap =
     (if swap then diff_trees other_tree self_tree else diff_trees self_tree other_tree)"

subsection \<open>The candidates\<close>

text \<open>
  \<open>candidates_ins\<close> and \<open>candidates_del\<close> are \<open>defaultdict(list)\<close>, \<open>candidates_upd\<close> is a
  dict; all three keep the order in which their keys were inserted.
\<close>

record 'v candidates =
  candidates_ins :: "(string \<times> 'v feature list) list"
  candidates_upd :: "(string \<times> 'v feature \<times> 'v feature) list"
  candidates_del :: "(string \<times> (string \<times> 'v feature) list) list"

text \<open>\<open>d[k].append(x)\<close> on a \<open>defaultdict(list)\<close>: a missing key starts from the empty list.\<close>

definition defaultdict_append :: "string \<Rightarrow> 'a \<Rightarrow> (string \<times> 'a list) list \<Rightarrow> (string \<times> 'a list) list" where
  "defaultdict_append k x d =
     AList.update k ((case map_of d k of None \<Rightarrow> [] | Some xs \<Rightarrow> xs) @ [x]) d"

text \<open>
  \<open>old\<close>, \<open>new\<close> and \<open>other\<close> may be \<open>None\<close>, and a method call on \<open>None\<close> raises
  \<open>AttributeError\<close>. \<open>diff\<close> calls \<open>get_feature\<close> with \<open>ogr_geoms=False\<close>.
\<close>

definition call_decode_path_to_1pk :: "'v dataset option \<Rightarrow> path \<Rightarrow> error + 'v" where
  "call_decode_path_to_1pk ds p =
     (case ds of None \<Rightarrow> Inl AttributeError | Some d \<Rightarrow> decode_path_to_1pk d p)"

definition call_get_feature :: "'v dataset option \<Rightarrow> 'v \<Rightarrow> error + 'v feature" where
  "call_get_feature ds pk =
     (case ds of
        None \<Rightarrow> Inl AttributeError
      | Some d \<Rightarrow> (case get_feature d pk (Some False) of None \<Rightarrow> Inl KeyError | Some f \<Rightarrow> Inr f))"

definition meta_path :: "path \<Rightarrow> bool" where
  "meta_path p = prefix ''.sno-table/meta/'' p"

subsection \<open>The loop over the deltas (lines 545-601)\<close>

text \<open>One pass of the loop body: \<open>Inr\<close> the candidates after it, \<open>Inl\<close> what it raises.\<close>

definition diff_delta ::
  "('v \<Rightarrow> string) \<Rightarrow> 'v dataset option \<Rightarrow> 'v dataset option \<Rightarrow> 'v dataset option \<Rightarrow> string set
     \<Rightarrow> delta \<Rightarrow> 'v candidates \<Rightarrow> error + 'v candidates" where
  "diff_delta py_str old new other pk_filter d c =
     (if meta_path (old_file_path d) then Inr c
      else if meta_path (new_file_path d) then Inr c
      else if status d = GIT_DELTA_DELETED then
        (case call_decode_path_to_1pk old (old_file_path d) of
           Inl e \<Rightarrow> Inl e
         | Inr old_pk \<Rightarrow>
             if py_str old_pk \<notin> pk_filter then Inr c
             else (case call_get_feature old old_pk of
                     Inl e \<Rightarrow> Inl e
                   | Inr old_feature \<Rightarrow>
                       Inr (c\<lparr>candidates_del :=
                                 defaultdict_append (py_str old_pk) (py_str old_pk, old_feature)
                                   (candidates_del c)\<rparr>)))
      else if status d = GIT_DELTA_MODIFIED then
        (case call_decode_path_to_1pk old (old_file_path d) of
           Inl e \<Rightarrow> Inl e
         | Inr old_pk \<Rightarrow>
             (case call_decode_path_to_1pk new (new_file_path d) of
                Inl e \<Rightarrow> Inl e
              | Inr new_pk \<Rightarrow>
                  if py_str old_pk \<notin> pk_filter \<and> py_str new_pk \<notin> pk_filter then Inr c
                  else (case call_get_feature old old_pk of
                          Inl e \<Rightarrow> Inl e
                        | Inr old_feature \<Rightarrow>
                            (case call_get_feature other new_pk of
                               Inl e \<Rightarrow> Inl e
                             | Inr new_feature \<Rightarrow>
                                 Inr (c\<lparr>candidates_upd :=
                                           AList.update (py_str old_pk) (old_feature, new_feature)
                                             (candidates_upd c)\<rparr>)))))
      else if status d = GIT_DELTA_ADDED then
        (case call_decode_path_to_1pk new (new_file_path d) of
           Inl e \<Rightarrow> Inl e
         | Inr new_pk \<Rightarrow>
             if py_str new_pk \<notin> pk_filter then Inr c
             else (case call_get_feature new new_pk of
                     Inl e \<Rightarrow> Inl e
                   | Inr new_feature \<Rightarrow>
                       Inr (c\<lparr>candidates_ins :=
                                 defaultdict_append (py_str new_pk) new_feature
                                   (candidates_ins c)\<rparr>)))
      else Inl NotImplementedError)"

fun diff_deltas ::
  "('v \<Rightarrow> string) \<Rightarrow> 'v dataset option \<Rightarrow> 'v dataset option \<Rightarrow> 'v dataset option \<Rightarrow> string set
     \<Rightarrow> delta list \<Rightarrow> 'v candidates \<Rightarrow> error + 'v candidates" where
  "diff_deltas py_str old new other pk_filter [] c = Inr c"
| "diff_deltas py_str old new other pk_filter (d # ds) c =
     (case diff_delta py_str old new other pk_filter d c of
        Inl e \<Rightarrow> Inl e
      | Inr c' \<Rightarrow> diff_deltas py_str old new other pk_filter ds c')"

subsection \<open>Rename detection (lines 603-614)\<close>

text \<open>
  The loop over \<open>list(candidates_del.keys())\<close>. \<open>pop(0)\<close> takes the first element of the
  list and raises \<open>IndexError\<close> on an empty one; a bucket left empty is deleted.
\<close>

definition pop_bucket :: "string \<Rightarrow> 'a list \<Rightarrow> (string \<times> 'a list) list \<Rightarrow> (string \<times> 'a list) list" where
  "pop_bucket h rest d = (if rest = [] then AList.delete h d else AList.update h rest d)"

fun detect_renames :: "string list \<Rightarrow> 'v candidates \<Rightarrow> error + 'v candidates" where
  "detect_renames [] c = Inr c"
| "detect_renames (h # hs) c =
     (case map_of (candidates_ins c) h of
        None \<Rightarrow> detect_renames hs c
      | Some ins_bucket \<Rightarrow>
          (case (case map_of (candidates_del c) h of None \<Rightarrow> [] | Some b \<Rightarrow> b) of
             [] \<Rightarrow> Inl IndexError
           | (track_pk, my_obj) # del_rest \<Rightarrow>
               (case ins_bucket of
                  [] \<Rightarrow> Inl IndexError
                | other_obj # ins_rest \<Rightarrow>
                    detect_renames hs
                      \<lparr>candidates_ins = pop_bucket h ins_rest (candidates_ins c),
                       candidates_upd = AList.update track_pk (my_obj, other_obj) (candidates_upd c),
                       candidates_del = pop_bucket h del_rest (candidates_del c)\<rparr>)))"

subsection \<open>The result (lines 616-624)\<close>

text \<open>\<open>dict(pairs)\<close>: the pairs are stored in order, a later value replacing an earlier one.\<close>

definition dict_of :: "(string \<times> 'a) list \<Rightarrow> (string \<times> 'a) list" where
  "dict_of pairs = foldl (\<lambda>d (k, v). AList.update k v d) [] pairs"

definition make_diff :: "'v candidates \<Rightarrow> 'v dataset_diff" where
  "make_diff c =
     \<lparr>META = [],
      I = concat (map snd (candidates_ins c)),
      D = dict_of (concat (map snd (candidates_del c))),
      U = candidates_upd c\<rparr>"

text \<open>
  \<open>diff_staged\<close> is \<open>diff\<close> up to the candidates left by the rename detection, from the
  deltas that the tree diff reports; \<open>diff_of_deltas\<close> builds the \<open>Diff\<close> from them.
\<close>

definition diff_staged ::
  "('v \<Rightarrow> string) \<Rightarrow> 'v dataset option \<Rightarrow> 'v dataset option \<Rightarrow> 'v dataset option \<Rightarrow> string set
     \<Rightarrow> delta list \<Rightarrow> error + 'v candidates" where
  "diff_staged py_str old new other pk_filter deltas =
     (case diff_deltas py_str old new other pk_filter deltas
             \<lparr>candidates_ins = [], candidates_upd = [], candidates_del = []\<rparr> of
        Inl e \<Rightarrow> Inl e
      | Inr c \<Rightarrow> detect_renames (map fst (candidates_del c)) c)"

definition diff_of_deltas ::
  "('v \<Rightarrow> string) \<Rightarrow> 'v dataset option \<Rightarrow> 'v dataset option \<Rightarrow> 'v dataset option \<Rightarrow> string set
     \<Rightarrow> delta list \<Rightarrow> error + 'v dataset_diff" where
  "diff_of_deltas py_str old new other pk_filter deltas =
     (case diff_staged py_str old new other pk_filter deltas of
        Inl e \<Rightarrow> Inl e
      | Inr c \<Rightarrow> Inr (make_diff c))"

text \<open>
  \<open>diff(self, other, pk_filter, reverse)\<close>. \<open>pk_filter\<close> is the set of the key strings it
  contains (\<open>UNFILTERED\<close> contains every string).
\<close>

definition diff_index_of :: "'v dataset \<Rightarrow> 'v dataset option \<Rightarrow> bool \<Rightarrow> delta list" where
  "diff_index_of self other reverse =
     diff_to_tree (tree self) (case other of None \<Rightarrow> [] | Some other_ds \<Rightarrow> tree other_ds) reverse"

definition diff ::
  "('v \<Rightarrow> string) \<Rightarrow> 'v dataset \<Rightarrow> 'v dataset option \<Rightarrow> string set \<Rightarrow> bool
     \<Rightarrow> error + 'v dataset_diff" where
  "diff py_str self other pk_filter reverse =
     (let diff_index = diff_index_of self other reverse;
          old = (if reverse then other else Some self);
          new = (if reverse then Some self else other)
      in diff_of_deltas py_str old new other pk_filter diff_index)"

text \<open>
  A delta that the loop looks at (neither of its paths is under the meta namespace), and
  the three statuses that the loop handles.
\<close>

definition feature_delta :: "delta \<Rightarrow> bool" where
  "feature_delta d = (\<not> meta_path (old_file_path d) \<and> \<not> meta_path (new_file_path d))"

definition supported_status :: "delta_status \<Rightarrow> bool" where
  "supported_status s = (s = GIT_DELTA_ADDED \<or> s = GIT_DELTA_DELETED \<or> s = GIT_DELTA_MODIFIED)"

subsection \<open>Snapshots and their identities\<close>

text \<open>
  The identity of a path is the string of the key it decodes to. The data model asks that
  within one snapshot no two feature paths have the same identity, and a path that two
  snapshots share has the same identity in both.
\<close>

definition feature_paths :: "'v dataset \<Rightarrow> path list" where
  "feature_paths ds = filter (\<lambda>p. \<not> meta_path p) (map fst (tree ds))"

definition identity :: "('v \<Rightarrow> string) \<Rightarrow> 'v dataset \<Rightarrow> path \<Rightarrow> string option" where
  "identity py_str ds p =
     (case decode_path_to_1pk ds p of Inl e \<Rightarrow> None | Inr pk \<Rightarrow> Some (py_str pk))"

definition injective_codec :: "('v \<Rightarrow> string) \<Rightarrow> 'v dataset \<Rightarrow> bool" where
  "injective_codec py_str ds = distinct (List.map_filter (identity py_str ds) (feature_paths ds))"

definition codecs_agree :: "('v \<Rightarrow> string) \<Rightarrow> 'v dataset \<Rightarrow> 'v dataset \<Rightarrow> bool" where
  "codecs_agree py_str a b =
     list_all (\<lambda>p. identity py_str a p = None \<or> identity py_str b p = None
                    \<or> identity py_str a p = identity py_str b p)
       (filter (\<lambda>p. p \<in> set (feature_paths b)) (feature_paths a))"

text \<open>
  \<open>diff\<close> up to the candidates left by the rename detection: the identities of a diff are
  the keys of these three dicts (the inserts of the \<open>Diff\<close> itself carry no key).
\<close>

definition diff_candidates ::
  "('v \<Rightarrow> string) \<Rightarrow> 'v dataset \<Rightarrow> 'v dataset option \<Rightarrow> string set \<Rightarrow> bool
     \<Rightarrow> error + 'v candidates" where
  "diff_candidates py_str self other pk_filter reverse =
     (let diff_index = diff_index_of self other reverse;
          old = (if reverse then other else Some self);
          new = (if reverse then Some self else other)
      in diff_staged py_str old new other pk_filter diff_index)"

text \<open>The tree diff in the other direction: added and deleted change places.\<close>

fun swap_status :: "delta_status \<Rightarrow> delta_status" where
  "swap_status GIT_DELTA_ADDED = GIT_DELTA_DELETED"
| "swap_status GIT_DELTA_DELETED = GIT_DELTA_ADDED"
| "swap_status s = s"

definition swap_delta :: "delta \<Rightarrow> delta" where
  "swap_delta d =
     \<lparr>status = swap_status (status d), old_file_path = new_file_path d,
      new_file_path = old_file_path d\<rparr>"

text \<open>
  The two shapes that relate the candidates of the two directions: a bucket of inserted
  features, and the same bucket as staged for deletion (each feature with its key).
\<close>

definition tag_buckets :: "(string \<times> 'a list) list \<Rightarrow> (string \<times> (string \<times> 'a) list) list" where
  "tag_buckets al = map (\<lambda>(k, fs). (k, map (Pair k) fs)) al"

definition flip_updates :: "(string \<times> 'a \<times> 'a) list \<Rightarrow> (string \<times> 'a \<times> 'a) list" where
  "flip_updates al = map (\<lambda>(k, old, new). (k, new, old)) al"

definition mirrored :: "'v candidates \<Rightarrow> 'v candidates \<Rightarrow> bool" where
  "mirrored c1 c2 =
     (candidates_del c1 = tag_buckets (candidates_ins c2) \<and>
      candidates_del c2 = tag_buckets (candidates_ins c1) \<and>
      candidates_upd c2 = flip_updates (candidates_upd c1))"

definition box_ins :: "(string \<times> 'a) list \<Rightarrow> (string \<times> 'a list) list" where
  "box_ins al = map (\<lambda>(k, f). (k, [f])) al"

definition box_del :: "(string \<times> 'a) list \<Rightarrow> (string \<times> (string \<times> 'a) list) list" where
  "box_del al = map (\<lambda>(k, f). (k, [(k, f)])) al"

text \<open>The identities of the deleted and of the added feature paths among the deltas.\<close>

definition deleted_keys :: "('v \<Rightarrow> string) \<Rightarrow> 'v dataset \<Rightarrow> delta list \<Rightarrow> string list" where
  "deleted_keys py_str a ds =
     List.map_filter (identity py_str a)
       (map old_file_path (filter (\<lambda>d. feature_delta d \<and> status d = GIT_DELTA_DELETED) ds))"

definition added_keys :: "('v \<Rightarrow> string) \<Rightarrow> 'v dataset \<Rightarrow> delta list \<Rightarrow> string list" where
  "added_keys py_str b ds =
     List.map_filter (identity py_str b)
       (map new_file_path (filter (\<lambda>d. feature_delta d \<and> status d = GIT_DELTA_ADDED) ds))"

section \<open>The diff containers and get_dataset_diff, get_repo_diff (kart/diff.py, lines 32-83)\<close>

subsection \<open>Diff, DatasetDiff and prune\<close>

text \<open>
  Modelled from the spec: \<open>RepoDiff\<close>, \<open>DatasetDiff\<close> and their method \<open>prune\<close> live in
  \<open>diff_structs.py\<close>, which is not among the sources. The specification describes a Diff
  as a mapping from dataset path to DatasetDiff, a DatasetDiff as a mapping from change
  kind to Deltas, and \<open>prune()\<close> as removing empty nested containers bottom-up. A
  container is a dict in insertion order whose values are Deltas or containers; a Delta is
  a leaf and is never empty.
\<close>

datatype 'd diff_node = Delta 'd | RichDict "(string \<times> 'd diff_node) list"

primrec is_empty :: "'d diff_node \<Rightarrow> bool" where
  "is_empty (Delta d) = False"
| "is_empty (RichDict items) = (items = [])"

text \<open>
  Modelled from the spec: \<open>prune()\<close> prunes every nested container first and then removes
  those that are empty.
\<close>

primrec prune :: "'d diff_node \<Rightarrow> 'd diff_node" where
  "prune (Delta d) = Delta d"
| "prune (RichDict items) =
     RichDict (filter (\<lambda>(key, v). \<not> is_empty v) (map (map_prod id prune) items))"

text \<open>
  The Deltas of a diff, in order, and the property of holding no empty nested container.
\<close>

primrec all_deltas :: "'d diff_node \<Rightarrow> 'd list" where
  "all_deltas (Delta d) = [d]"
| "all_deltas (RichDict items) = concat (map snd (map (map_prod id all_deltas) items))"

primrec pruned :: "'d diff_node \<Rightarrow> bool" where
  "pruned (Delta d) = True"
| "pruned (RichDict items) =
     (list_all (\<lambda>(key, v). \<not> is_empty v) items \<and>
      list_all snd (map (map_prod id pruned) items))"

subsection \<open>get_dataset_diff and get_repo_diff\<close>

text \<open>
  What the two functions call and is not among the sources is a field of the environment:
  the comparison and the dataset lookup of a \<open>RepoStructure\<close>, the \<open>diff\<close> method of a
  dataset (its last argument is \<open>reverse\<close>, \<open>False\<close> when it is left out), the
  \<open>diff_db_to_tree\<close> method of the working copy, the operator \<open>+=\<close> of a DatasetDiff, and
  the filter \<open>UNFILTERED\<close>.
\<close>

record ('rs, 'ds, 'wc, 'f, 'd) diff_env =
  rs_equal :: "'rs \<Rightarrow> 'rs \<Rightarrow> bool"
  datasets_get :: "'rs \<Rightarrow> string \<Rightarrow> 'ds option"
  dataset_paths :: "'rs \<Rightarrow> string list"
  dataset_diff :: "'ds \<Rightarrow> 'ds option \<Rightarrow> 'f \<Rightarrow> bool \<Rightarrow> error + 'd diff_node"
  diff_db_to_tree :: "'wc \<Rightarrow> 'ds option \<Rightarrow> 'f \<Rightarrow> error + 'd diff_node"
  iadd :: "'d diff_node \<Rightarrow> 'd diff_node \<Rightarrow> 'd diff_node"
  unfiltered :: "'f"

text \<open>
  The part \<open>if base_rs != target_rs: ...\<close> of \<open>get_dataset_diff\<close> (lines 37-49);
  \<open>diff0\<close> is the variable \<open>diff\<close> as it stands before.
\<close>

definition commit_diff ::
  "('rs, 'ds, 'wc, 'f, 'd) diff_env \<Rightarrow> 'rs \<Rightarrow> 'rs \<Rightarrow> string \<Rightarrow> 'f \<Rightarrow> 'd diff_node
     \<Rightarrow> error + 'd diff_node" where
  "commit_diff env base_rs target_rs dataset_path ds_filter diff0 =
     (if \<not> rs_equal env base_rs target_rs
      then (let base_ds = datasets_get env base_rs dataset_path;
                target_ds = datasets_get env target_rs dataset_path;
                (base_ds, target_ds, reverse) =
                  (if base_ds = None then (target_ds, base_ds, True)
                   else (base_ds, target_ds, False))
            in case base_ds of
                 None \<Rightarrow> Inl AttributeError
               | Some ds \<Rightarrow>
                   (case dataset_diff env ds target_ds ds_filter reverse of
                      Inl e \<Rightarrow> Inl e
                    | Inr diff_cc \<Rightarrow> Inr (iadd env diff0 diff_cc)))
      else Inr diff0)"

text \<open>The part \<open>if working_copy: ...\<close> (lines 51-60).\<close>

definition working_copy_diff ::
  "('rs, 'ds, 'wc, 'f, 'd) diff_env \<Rightarrow> 'rs \<Rightarrow> 'wc option \<Rightarrow> string \<Rightarrow> 'f \<Rightarrow> 'd diff_node
     \<Rightarrow> error + 'd diff_node" where
  "working_copy_diff env target_rs working_copy dataset_path ds_filter diff0 =
     (case working_copy of
        None \<Rightarrow> Inr diff0
      | Some wc \<Rightarrow>
          (let target_ds = datasets_get env target_rs dataset_path in
           case diff_db_to_tree env wc target_ds ds_filter of
             Inl e \<Rightarrow> Inl e
           | Inr diff_wc \<Rightarrow> Inr (iadd env diff0 diff_wc)))"

definition get_dataset_diff ::
  "('rs, 'ds, 'wc, 'f, 'd) diff_env \<Rightarrow> 'rs \<Rightarrow> 'rs \<Rightarrow> 'wc option \<Rightarrow> string \<Rightarrow> 'f
     \<Rightarrow> error + 'd diff_node" where
  "get_dataset_diff env base_rs target_rs working_copy dataset_path ds_filter =
     (case commit_diff env base_rs target_rs dataset_path ds_filter (RichDict []) of
        Inl e \<Rightarrow> Inl e
      | Inr diff1 \<Rightarrow>
          (case working_copy_diff env target_rs working_copy dataset_path ds_filter diff1 of
             Inl e \<Rightarrow> Inl e
           | Inr diff2 \<Rightarrow> Inr (prune diff2)))"

text \<open>
  The feature filter of \<open>get_repo_diff\<close>: \<open>UNFILTERED\<close>, or a dict from dataset path to the
  filter of that dataset. \<open>feature_filter[ds_path]\<close> is \<open>UNFILTERED\<close> again for the first.
\<close>

datatype 'f repo_filter = Repo_UNFILTERED | Repo_filter "(string \<times> 'f) list"

definition filter_item ::
  "('rs, 'ds, 'wc, 'f, 'd) diff_env \<Rightarrow> 'f repo_filter \<Rightarrow> string \<Rightarrow> error + 'f" where
  "filter_item env feature_filter ds_path =
     (case feature_filter of
        Repo_UNFILTERED \<Rightarrow> Inr (unfiltered env)
      | Repo_filter items \<Rightarrow>
          (case map_of items ds_path of None \<Rightarrow> Inl KeyError | Some f \<Rightarrow> Inr f))"

definition all_ds_paths ::
  "('rs, 'ds, 'wc, 'f, 'd) diff_env \<Rightarrow> 'rs \<Rightarrow> 'rs \<Rightarrow> 'f repo_filter \<Rightarrow> string list" where
  "all_ds_paths env base_rs target_rs feature_filter =
     (let paths = remdups (dataset_paths env base_rs @ dataset_paths env target_rs) in
      case feature_filter of
        Repo_UNFILTERED \<Rightarrow> paths
      | Repo_filter items \<Rightarrow> filter (\<lambda>p. p \<in> fst ` set items) paths)"

text \<open>The loop \<open>for ds_path in sorted(all_ds_paths)\<close> (lines 76-80).\<close>

fun repo_diff_loop ::
  "('rs, 'ds, 'wc, 'f, 'd) diff_env \<Rightarrow> 'rs \<Rightarrow> 'rs \<Rightarrow> 'f repo_filter \<Rightarrow> string list
     \<Rightarrow> (string \<times> 'd diff_node) list \<Rightarrow> error + (string \<times> 'd diff_node) list" where
  "repo_diff_loop env base_rs target_rs feature_filter [] result = Inr result"
| "repo_diff_loop env base_rs target_rs feature_filter (ds_path # rest) result =
     (case filter_item env feature_filter ds_path of
        Inl e \<Rightarrow> Inl e
      | Inr ds_filter \<Rightarrow>
          (case get_dataset_diff env base_rs target_rs None ds_path ds_filter of
             Inl e \<Rightarrow> Inl e
           | Inr ds_diff \<Rightarrow>
               repo_diff_loop env base_rs target_rs feature_filter rest
                 (AList.update ds_path ds_diff result)))"

definition get_repo_diff ::
  "('rs, 'ds, 'wc, 'f, 'd) diff_env \<Rightarrow> 'rs \<Rightarrow> 'rs \<Rightarrow> 'f repo_filter \<Rightarrow> error + 'd diff_node" where
  "get_repo_diff env base_rs target_rs feature_filter =
     (case repo_diff_loop env base_rs target_rs feature_filter
             (sort (all_ds_paths env base_rs target_rs feature_filter)) [] of
        Inl e \<Rightarrow> Inl e
      | Inr result \<Rightarrow> Inr (prune (RichDict result)))"

section \<open>Resolving the conflicts of a merge\<close>

text \<open>
  Modelled from the spec: \<open>MergedIndex\<close>, \<open>resolve\<close> and the finalization of a merge live
  in \<open>merge_util.py\<close> and \<open>resolve.py\<close>, which are not among the sources; only their tests
  (tests/test_resolve.py) are. The specification gives a MergedIndex three parts:
  \<open>entries\<close>, the items destined for the merged tree, indexed by path; \<open>conflicts\<close>, from
  conflict key to Conflict; \<open>resolves\<close>, from conflict key to the list of resolved
  versions. A conflict key is derived from the dataset path and the identity of the item
  (the tests write it \<open>dataset:feature:pk\<close> or \<open>dataset:meta:name\<close>); a Conflict holds up
  to three versions; a version is the item at its path.
\<close>

datatype item_kind = Meta_item | Feature_item

record conflict_key =
  key_dataset :: string
  key_kind :: item_kind
  key_identity :: string

record version =
  version_path :: path
  version_blob :: oid

record conflict =
  ancestor :: "version option"
  ours :: "version option"
  theirs :: "version option"

record merged_index =
  entries :: "path \<rightharpoonup> oid"
  conflicts :: "(conflict_key \<times> conflict) list"
  resolves :: "(conflict_key \<times> version list) list"

text \<open>
  Modelled from the spec: the meta-item conflicts of a dataset that have no resolution yet.
  While there is one, no feature conflict of that dataset can be resolved.
\<close>

definition unresolved_meta :: "merged_index \<Rightarrow> string \<Rightarrow> conflict_key list" where
  "unresolved_meta mi dataset =
     filter (\<lambda>k. key_dataset k = dataset \<and> key_kind k = Meta_item
                  \<and> map_of (resolves mi) k = None)
       (map fst (conflicts mi))"

text \<open>
  Modelled from the spec: \<open>resolve(conflict_key, chosen_versions)\<close> accepts zero, one or
  several versions and records them in \<open>resolves\<close>; it does not change \<open>entries\<close>. For a
  feature conflict of a dataset with an unresolved meta-item conflict it fails with
  \<open>InvalidOperation\<close> (exit code \<open>INVALID_OPERATION\<close> in the tests).
\<close>

definition resolve :: "merged_index \<Rightarrow> conflict_key \<Rightarrow> version list \<Rightarrow> error + merged_index" where
  "resolve mi k chosen_versions =
     (if key_kind k = Feature_item \<and> unresolved_meta mi (key_dataset k) \<noteq> []
      then Inl (InvalidOperation INVALID_OPERATION)
      else Inr (mi\<lparr>resolves := AList.update k chosen_versions (resolves mi)\<rparr>))"

text \<open>
  Modelled from the spec: finalization goes through the conflicts; for each it deletes
  the versions of the conflict from \<open>entries\<close> and writes the resolved versions; it fails
  when a conflict has no resolution. The entries that are left make the merged tree.
\<close>

definition conflict_paths :: "conflict \<Rightarrow> path list" where
  "conflict_paths c =
     map version_path (List.map_filter (\<lambda>v. v) [ancestor c, ours c, theirs c])"

definition delete_paths :: "path list \<Rightarrow> (path \<rightharpoonup> oid) \<Rightarrow> (path \<rightharpoonup> oid)" where
  "delete_paths ps es = foldl (\<lambda>e p. e(p := None)) es ps"

definition write_versions :: "version list \<Rightarrow> (path \<rightharpoonup> oid) \<Rightarrow> (path \<rightharpoonup> oid)" where
  "write_versions vs es = foldl (\<lambda>e v. e(version_path v \<mapsto> version_blob v)) es vs"

definition apply_resolution :: "conflict \<Rightarrow> version list \<Rightarrow> (path \<rightharpoonup> oid) \<Rightarrow> (path \<rightharpoonup> oid)" where
  "apply_resolution c vs es = write_versions vs (delete_paths (conflict_paths c) es)"

fun finalize_conflicts ::
  "(conflict_key \<times> conflict) list \<Rightarrow> (conflict_key \<times> version list) list \<Rightarrow> (path \<rightharpoonup> oid)
     \<Rightarrow> error + (path \<rightharpoonup> oid)" where
  "finalize_conflicts [] rs es = Inr es"
| "finalize_conflicts ((k, c) # rest) rs es =
     (case map_of rs k of
        None \<Rightarrow> Inl (InvalidOperation INVALID_OPERATION)
      | Some vs \<Rightarrow> finalize_conflicts rest rs (apply_resolution c vs es))"

definition finalize :: "merged_index \<Rightarrow> error + (path \<rightharpoonup> oid)" where
  "finalize mi = finalize_conflicts (conflicts mi) (resolves mi) (entries mi)"

text \<open>
  What the other conflicts touch: a conflict key is on its own when no other conflict has
  a version, or a resolved version, at a path that this conflict or its resolution uses.
\<close>

definition footprint :: "conflict \<Rightarrow> version list \<Rightarrow> path set" where
  "footprint c vs = set (conflict_paths c) \<union> version_path ` set vs"

definition on_its_own :: "merged_index \<Rightarrow> conflict_key \<Rightarrow> conflict \<Rightarrow> version list \<Rightarrow> bool" where
  "on_its_own mi k c vs =
     list_all (\<lambda>(k', c'). k' = k \<or>
                 footprint c' (case map_of (resolves mi) k' of None \<Rightarrow> [] | Some vs' \<Rightarrow> vs')
                   \<inter> footprint c vs = {})
       (conflicts mi)"

definition others_resolved :: "merged_index \<Rightarrow> conflict_key \<Rightarrow> bool" where
  "others_resolved mi k =
     list_all (\<lambda>k'. k' = k \<or> map_of (resolves mi) k' \<noteq> None) (map fst (conflicts mi))"

section \<open>Example data\<close>

text \<open>
  A dataset with two stored features, keyed by strings (for which \<open>str\<close> is the
  identity), an index holding both, and diffs to apply to it.
\<close>

definition points_ds :: "string dataset" where
  "points_ds = \<lparr> path = ''points'',
     tree = [(''.sno-table/1'', ''a1''), (''.sno-table/2'', ''a2'')],
     primary_key = ''fid'', geom_column_name = Some ''geom'',
     decode_path_to_1pk =
       (\<lambda>p. if take 11 p = ''.sno-table/'' then Inr (drop 11 p) else Inl NotADataRecord),
     get_feature =
       (\<lambda>pk ogr. if pk = ''1'' then Some [''fid'' \<mapsto> ''1'', ''geom'' \<mapsto> ''P1'', ''n'' \<mapsto> ''five'']
                  else if pk = ''2'' then Some [''fid'' \<mapsto> ''2'', ''geom'' \<mapsto> ''P2'', ''n'' \<mapsto> ''six'']
                  else None),
     encode_1pk_to_path = (\<lambda>pk. ''.sno-table/'' @ pk),
     encode_feature =
       (\<lambda>f. (''.sno-table/'' @ (case f ''fid'' of Some k \<Rightarrow> k | None \<Rightarrow> []),
              concat (map (\<lambda>c. case f c of Some v \<Rightarrow> v @ '';'' | None \<Rightarrow> '';'')
                        [''fid'', ''geom'', ''n'']))) \<rparr>"

definition points_index :: wstate where
  "points_index = \<lparr> index = [''.sno-table/1'' \<mapsto> (''a1'', GIT_FILEMODE_BLOB),
                               ''.sno-table/2'' \<mapsto> (''a2'', GIT_FILEMODE_BLOB)],
     odb = Map.empty, echoed = [] \<rparr>"

definition points_blob_id :: "bytes \<Rightarrow> oid" where
  "points_blob_id b = ''#'' @ b"

definition feature9 :: "string feature" where
  "feature9 = [''fid'' \<mapsto> ''9'', ''geom'' \<mapsto> ''P9'', ''n'' \<mapsto> ''nine'']"

definition points_patch :: "string dataset_diff" where
  "points_patch = \<lparr> META = [],
     I = [[''fid'' \<mapsto> ''3'', ''geom'' \<mapsto> ''P3'', ''n'' \<mapsto> ''x'']],
     D = [(''9'', feature9)],
     U = [(''1'', ([''fid'' \<mapsto> ''1'', ''geom'' \<mapsto> ''P1'', ''n'' \<mapsto> ''five''],
                   [''fid'' \<mapsto> ''1'', ''geom'' \<mapsto> ''P1'', ''n'' \<mapsto> ''FIVE''])),
          (''2'', ([''fid'' \<mapsto> ''2'', ''geom'' \<mapsto> ''P2'', ''n'' \<mapsto> ''seven''],
                   [''fid'' \<mapsto> ''2'', ''geom'' \<mapsto> ''P2'', ''n'' \<mapsto> ''SEVEN'']))] \<rparr>"

definition meta_patch :: "string dataset_diff" where
  "meta_patch = \<lparr> META = [(''title'', ''Points'')], I = [], D = [(''9'', feature9)], U = [] \<rparr>"

definition expected1 :: "string feature" where
  "expected1 = [''fid'' \<mapsto> ''1'', ''geom'' \<mapsto> ''other'', ''n'' \<mapsto> ''five'']"

definition stored1 :: "string feature" where
  "stored1 = [''fid'' \<mapsto> ''1'', ''geom'' \<mapsto> ''P1'', ''n'' \<mapsto> ''five'']"

definition updated1 :: "string feature" where
  "updated1 = [''fid'' \<mapsto> ''1'', ''geom'' \<mapsto> ''P1'', ''n'' \<mapsto> ''FIVE'']"

text \<open>
  A move: the old snapshot stores the content \<open>cafe\<close> under the key 1, the new snapshot
  stores the same content (the same blob) under the key 2.
\<close>

definition cafe :: "string feature" where
  "cafe = [''name'' \<mapsto> ''cafe'', ''geom'' \<mapsto> ''P1'']"

definition before_move :: "string dataset" where
  "before_move = points_ds \<lparr> tree := [(''.sno-table/1'', ''c0'')],
     get_feature := (\<lambda>pk ogr. if pk = ''1'' then Some cafe else None) \<rparr>"

definition after_move :: "string dataset" where
  "after_move = points_ds \<lparr> tree := [(''.sno-table/2'', ''c0'')],
     get_feature := (\<lambda>pk ogr. if pk = ''2'' then Some cafe else None) \<rparr>"

text \<open>
  A change of path only: \<open>rehashed\<close> stores the content of key 1 at another path, which
  its own \<open>decode_path_to_1pk\<close> maps to the key 1 again.
\<close>

definition rehashed :: "string dataset" where
  "rehashed = points_ds \<lparr> tree := [(''.sno-table/x1'', ''c0'')],
     decode_path_to_1pk :=
       (\<lambda>p. if take 12 p = ''.sno-table/x'' then Inr (drop 12 p) else Inl NotADataRecord),
     get_feature := (\<lambda>pk ogr. if pk = ''1'' then Some cafe else None) \<rparr>"

text \<open>
  Two snapshots of one dataset: key 1 is deleted, key 2 is modified, key 3 is added, and
  the schema (a meta item) changes.
\<close>

definition row1 :: "string feature" where
  "row1 = [''fid'' \<mapsto> ''1'', ''n'' \<mapsto> ''one'']"

definition row2 :: "string feature" where
  "row2 = [''fid'' \<mapsto> ''2'', ''n'' \<mapsto> ''two'']"

definition row2' :: "string feature" where
  "row2' = [''fid'' \<mapsto> ''2'', ''n'' \<mapsto> ''TWO'']"

definition row3 :: "string feature" where
  "row3 = [''fid'' \<mapsto> ''3'', ''n'' \<mapsto> ''three'']"

definition snapshot_a :: "string dataset" where
  "snapshot_a = points_ds \<lparr>
     tree := [(''.sno-table/1'', ''a1''), (''.sno-table/2'', ''a2''),
              (''.sno-table/meta/schema'', ''m1'')],
     get_feature := (\<lambda>pk ogr. if pk = ''1'' then Some row1
                              else if pk = ''2'' then Some row2 else None) \<rparr>"

definition snapshot_b :: "string dataset" where
  "snapshot_b = points_ds \<lparr>
     tree := [(''.sno-table/2'', ''b2''), (''.sno-table/3'', ''b3''),
              (''.sno-table/meta/schema'', ''m2'')],
     get_feature := (\<lambda>pk ogr. if pk = ''2'' then Some row2'
                              else if pk = ''3'' then Some row3 else None) \<rparr>"

text \<open>
  A repository with the datasets \<open>points\<close> and \<open>roads\<close> at two commits: between them one
  point is inserted and nothing changes in \<open>roads\<close>.
\<close>

definition repo_env :: "(nat, string, unit, unit, string) diff_env" where
  "repo_env = \<lparr>
     rs_equal = (=),
     datasets_get = (\<lambda>rs p. if p = ''points'' \<or> p = ''roads'' then Some p else None),
     dataset_paths = (\<lambda>rs. [''roads'', ''points'']),
     dataset_diff = (\<lambda>ds target f reverse.
        if ds = ''points''
        then Inr (RichDict [(''meta'', RichDict []), (''feature'', RichDict [(''3'', Delta ''+3'')])])
        else Inr (RichDict [(''meta'', RichDict []), (''feature'', RichDict [])])),
     diff_db_to_tree = (\<lambda>wc target f. Inr (RichDict [])),
     iadd = (\<lambda>diff other. other),
     unfiltered = () \<rparr>"

definition unpruned :: "string diff_node" where
  "unpruned = RichDict [(''roads'', RichDict [(''meta'', RichDict []), (''feature'', RichDict [])]),
                        (''points'', RichDict [(''meta'', RichDict []),
                                               (''feature'', RichDict [(''3'', Delta ''+3'')])])]"

text \<open>
  The merge of tests/test_resolve.py, \<open>test_resolve_schema_conflict\<close>: both sides changed
  the schema, and both inserted the feature 9999999.
\<close>

definition schema_key :: conflict_key where
  "schema_key = \<lparr>key_dataset = ''nz_waca_adjustments'', key_kind = Meta_item,
                  key_identity = ''schema.json''\<rparr>"

definition feature_key :: conflict_key where
  "feature_key = \<lparr>key_dataset = ''nz_waca_adjustments'', key_kind = Feature_item,
                   key_identity = ''9999999''\<rparr>"

definition schema_path :: path where
  "schema_path = ''nz_waca_adjustments/.sno-table/meta/schema.json''"

definition feature_path :: path where
  "feature_path = ''nz_waca_adjustments/.sno-table/feature/9999999''"

definition other_path :: path where
  "other_path = ''nz_waca_adjustments/.sno-table/feature/9999998''"

definition merging :: merged_index where
  "merging = \<lparr>
     entries = [''nz_waca_adjustments/.sno-table/feature/1'' \<mapsto> ''f1'',
                schema_path \<mapsto> ''s-ours'', feature_path \<mapsto> ''f-ours''],
     conflicts =
       [(feature_key, \<lparr>ancestor = None,
                       ours = Some \<lparr>version_path = feature_path, version_blob = ''f-ours''\<rparr>,
                       theirs = Some \<lparr>version_path = feature_path, version_blob = ''f-theirs''\<rparr>\<rparr>),
        (schema_key, \<lparr>ancestor = Some \<lparr>version_path = schema_path, version_blob = ''s-anc''\<rparr>,
                      ours = Some \<lparr>version_path = schema_path, version_blob = ''s-ours''\<rparr>,
                      theirs = Some \<lparr>version_path = schema_path, version_blob = ''s-theirs''\<rparr>\<rparr>)],
     resolves = [] \<rparr>"

definition feature_conflict :: conflict where
  "feature_conflict = \<lparr>ancestor = None,
       ours = Some \<lparr>version_path = feature_path, version_blob = ''f-ours''\<rparr>,
       theirs = Some \<lparr>version_path = feature_path, version_blob = ''f-theirs''\<rparr>\<rparr>"

definition schema_resolved :: merged_index where
  "schema_resolved =
     merging\<lparr>resolves := [(schema_key, [\<lparr>version_path = schema_path, version_blob = ''s-theirs''\<rparr>])]\<rparr>"

definition ours_version :: version where
  "ours_version = \<lparr>version_path = feature_path, version_blob = ''f-ours''\<rparr>"

definition rekeyed_version :: version where
  "rekeyed_version = \<lparr>version_path = other_path, version_blob = ''f-rekeyed''\<rparr>"

section \<open>Properties of write_index\<close>

lemma echoed_apply_change: "echoed (apply_change blob_id ds c st) = echoed st"
  by (cases c) (simp_all add: index_add_def index_remove_def create_blob_def)

lemma apply_batch_echoed_mono:
  "length (echoed st) \<le> length (echoed (apply_batch py_str blob_id ds cs st))"
proof (induction cs arbitrary: st)
  case Nil show ?case by simp
next
  case (Cons c cs)
  have "length (echoed st)
          \<le> length (echoed (if apply_conflict ds (index st) c
                             then echo (report py_str ds (index st) c) st
                             else apply_change blob_id ds c st))"
    by (simp add: echo_def echoed_apply_change)
  also have "\<dots> \<le> length (echoed (apply_batch py_str blob_id ds (c # cs) st))"
    using Cons.IH by simp
  finally show ?case .
qed

lemma apply_batch_append:
  "apply_batch py_str blob_id ds (xs @ ys) st =
     apply_batch py_str blob_id ds ys (apply_batch py_str blob_id ds xs st)"
  by (induction xs arbitrary: st) simp_all

lemma write_deletes_batch:
  assumes "\<forall>s. write_deletes py_str ds xs c st \<noteq> Raised KeyError s"
  shows "write_deletes py_str ds xs c st =
           Returned (c \<or> length (echoed st) < length (echoed (apply_batch py_str blob_id ds (map (\<lambda>(_, old). Delete old) xs) st)))
             (apply_batch py_str blob_id ds (map (\<lambda>(_, old). Delete old) xs) st)"
  using assms
proof (induction xs arbitrary: c st)
  case Nil show ?case by simp
next
  case (Cons x xs)
  let ?cs = "map (\<lambda>(_, old). Delete old) xs"
  obtain k old where x: "x = (k, old)" by (cases x)
  from Cons.prems x obtain pk where pk: "old (primary_key ds) = Some pk"
    by (cases "old (primary_key ds)") auto
  show ?case
  proof (cases "index st (encode_1pk_to_path ds pk) = None")
    case True
    let ?st1 = "echo (path ds @ '': Trying to delete nonexistent feature: '' @ py_str pk) st"
    have step: "write_deletes py_str ds (x # xs) c st = write_deletes py_str ds xs True ?st1"
      using x pk True by simp
    have batch: "apply_batch py_str blob_id ds (map (\<lambda>(_, old). Delete old) (x # xs)) st
                   = apply_batch py_str blob_id ds ?cs ?st1"
      using x pk True by (simp add: stored_path_def)
    have "\<forall>s. write_deletes py_str ds xs True ?st1 \<noteq> Raised KeyError s"
      using Cons.prems step by simp
    from Cons.IH[OF this]
    have ih: "write_deletes py_str ds xs True ?st1 = Returned True (apply_batch py_str blob_id ds ?cs ?st1)"
      by simp
    have "length (echoed ?st1) \<le> length (echoed (apply_batch py_str blob_id ds ?cs ?st1))"
      by (rule apply_batch_echoed_mono)
    then have "length (echoed st) < length (echoed (apply_batch py_str blob_id ds ?cs ?st1))"
      by (simp add: echo_def)
    then show ?thesis unfolding step batch ih by simp
  next
    case False
    let ?st1 = "index_remove (encode_1pk_to_path ds pk) st"
    have step: "write_deletes py_str ds (x # xs) c st = write_deletes py_str ds xs c ?st1"
      using x pk False by (auto simp: Let_def)
    have batch: "apply_batch py_str blob_id ds (map (\<lambda>(_, old). Delete old) (x # xs)) st
                   = apply_batch py_str blob_id ds ?cs ?st1"
      using x pk False by (auto simp: stored_path_def)
    have "\<forall>s. write_deletes py_str ds xs c ?st1 \<noteq> Raised KeyError s"
      using Cons.prems step by simp
    from Cons.IH[OF this]
    have ih: "write_deletes py_str ds xs c ?st1 = Returned (c \<or> length (echoed ?st1) < length (echoed (apply_batch py_str blob_id ds ?cs ?st1))) (apply_batch py_str blob_id ds ?cs ?st1)" .
    have "echoed ?st1 = echoed st" by (simp add: index_remove_def)
    then show ?thesis unfolding step batch ih by simp
  qed
qed

lemma write_inserts_batch:
  assumes "\<forall>s. write_inserts py_str blob_id ds xs c st \<noteq> Raised KeyError s"
  shows "write_inserts py_str blob_id ds xs c st =
           Returned (c \<or> length (echoed st) < length (echoed (apply_batch py_str blob_id ds (map Insert xs) st)))
             (apply_batch py_str blob_id ds (map Insert xs) st)"
  using assms
proof (induction xs arbitrary: c st)
  case Nil show ?case by simp
next
  case (Cons new xs)
  let ?cs = "map Insert xs"
  let ?p = "fst (encode_feature ds new)"
  let ?data = "snd (encode_feature ds new)"
  from Cons.prems obtain pk where pk: "new (primary_key ds) = Some pk"
    by (cases "new (primary_key ds)") auto
  show ?case
  proof (cases "index st ?p = None")
    case False
    let ?st1 = "echo (path ds @ '': Trying to create feature that already exists: '' @ py_str pk) st"
    have step: "write_inserts py_str blob_id ds (new # xs) c st = write_inserts py_str blob_id ds xs True ?st1"
      using pk False by (auto simp: case_prod_beta)
    have batch: "apply_batch py_str blob_id ds (map Insert (new # xs)) st
                   = apply_batch py_str blob_id ds ?cs ?st1"
      using pk False by auto
    have "\<forall>s. write_inserts py_str blob_id ds xs True ?st1 \<noteq> Raised KeyError s"
      using Cons.prems step by simp
    from Cons.IH[OF this]
    have ih: "write_inserts py_str blob_id ds xs True ?st1 = Returned True (apply_batch py_str blob_id ds ?cs ?st1)"
      by simp
    have "length (echoed ?st1) \<le> length (echoed (apply_batch py_str blob_id ds ?cs ?st1))"
      by (rule apply_batch_echoed_mono)
    then have "length (echoed st) < length (echoed (apply_batch py_str blob_id ds ?cs ?st1))"
      by (simp add: echo_def)
    then show ?thesis unfolding step batch ih by simp
  next
    case True
    let ?st1 = "apply_change blob_id ds (Insert new) st"
    have step: "write_inserts py_str blob_id ds (new # xs) c st = write_inserts py_str blob_id ds xs c ?st1"
      using pk True by (simp add: case_prod_beta create_blob_def)
    have batch: "apply_batch py_str blob_id ds (map Insert (new # xs)) st
                   = apply_batch py_str blob_id ds ?cs ?st1"
      using pk True by simp
    have "\<forall>s. write_inserts py_str blob_id ds xs c ?st1 \<noteq> Raised KeyError s"
      using Cons.prems step by simp
    from Cons.IH[OF this]
    have ih: "write_inserts py_str blob_id ds xs c ?st1 = Returned (c \<or> length (echoed ?st1) < length (echoed (apply_batch py_str blob_id ds ?cs ?st1))) (apply_batch py_str blob_id ds ?cs ?st1)" .
    have "echoed ?st1 = echoed st" by (rule echoed_apply_change)
    then show ?thesis unfolding step batch ih by simp
  qed
qed

lemma already_changed_error: "already_changed g actual old = Inl e \<Longrightarrow> e = KeyError"
  by (cases g) (auto simp: dict_pop_def split: if_splits option.splits)

lemma already_changed_full:
  assumes "already_changed (geom_column_name ds) actual old = Inr b"
    and "stored_feature ds old = Some actual"
    and "\<not> geometry_only_mismatch ds old"
  shows "b = (actual \<noteq> old)"
proof (cases "geom_column_name ds")
  case None
  then show ?thesis using assms(1) by simp
next
  case (Some g)
  show ?thesis
  proof (cases "g = []")
    case True
    then show ?thesis using assms(1) Some by simp
  next
    case False
    have b: "b = (actual(g := None) \<noteq> old(g := None))"
      using assms(1) Some False by (auto simp: dict_pop_def split: option.splits)
    have "actual \<noteq> old \<Longrightarrow> actual(g := None) \<noteq> old(g := None)"
      using assms(2,3) Some False by (simp add: geometry_only_mismatch_def)
    then show ?thesis using b by auto
  qed
qed

lemma write_updates_batch:
  assumes "\<forall>s. write_updates py_str blob_id ds xs c st \<noteq> Raised KeyError s"
    and "list_all (\<lambda>(_, old, _). \<not> geometry_only_mismatch ds old) xs"
  shows "write_updates py_str blob_id ds xs c st =
           Returned (c \<or> length (echoed st) < length (echoed (apply_batch py_str blob_id ds (map (\<lambda>(_, old, new). Update old new) xs) st)))
             (apply_batch py_str blob_id ds (map (\<lambda>(_, old, new). Update old new) xs) st)"
  using assms
proof (induction xs arbitrary: c st)
  case Nil show ?case by simp
next
  case (Cons x xs)
  let ?cs = "map (\<lambda>(_, old, new). Update old new) xs"
  obtain k old new where x: "x = (k, old, new)" by (cases x)
  from Cons.prems x obtain pk where pk: "old (primary_key ds) = Some pk"
    by (cases "old (primary_key ds)") auto
  let ?p = "encode_1pk_to_path ds pk"
  have sp: "stored_path ds old = Some ?p" using pk by (simp add: stored_path_def)
  have rest: "list_all (\<lambda>(_, old, _). \<not> geometry_only_mismatch ds old) xs"
    and here: "\<not> geometry_only_mismatch ds old"
    using Cons.prems(2) x by simp_all
  have conflict_case: ?case
    if step: "write_updates py_str blob_id ds (x # xs) c st = write_updates py_str blob_id ds xs True (echo m st)"
      and batch: "apply_batch py_str blob_id ds (map (\<lambda>(_, old, new). Update old new) (x # xs)) st
                   = apply_batch py_str blob_id ds ?cs (echo m st)" for m
  proof -
    have "\<forall>s. write_updates py_str blob_id ds xs True (echo m st) \<noteq> Raised KeyError s"
      using Cons.prems(1) step by simp
    from Cons.IH[OF this rest]
    have ih: "write_updates py_str blob_id ds xs True (echo m st) = Returned True (apply_batch py_str blob_id ds ?cs (echo m st))"
      by simp
    have "length (echoed (echo m st)) \<le> length (echoed (apply_batch py_str blob_id ds ?cs (echo m st)))"
      by (rule apply_batch_echoed_mono)
    then have "length (echoed st) < length (echoed (apply_batch py_str blob_id ds ?cs (echo m st)))"
      by (simp add: echo_def)
    then show ?thesis unfolding step batch ih by simp
  qed
  show ?case
  proof (cases "index st ?p = None")
    case True
    show ?thesis
    proof (rule conflict_case)
      show "write_updates py_str blob_id ds (x # xs) c st = write_updates py_str blob_id ds xs True
              (echo (path ds @ '': Trying to update nonexistent feature: '' @ py_str pk) st)"
        using x pk True by simp
      show "apply_batch py_str blob_id ds (map (\<lambda>(_, old, new). Update old new) (x # xs)) st
              = apply_batch py_str blob_id ds ?cs (echo (path ds @ '': Trying to update nonexistent feature: '' @ py_str pk) st)"
        using x pk sp True by simp
    qed
  next
    case False
    from Cons.prems(1) x pk False obtain actual where actual: "get_feature ds pk None = Some actual"
      by (cases "get_feature ds pk None") (auto simp: Let_def)
    from Cons.prems(1) x pk False actual obtain b where b: "already_changed (geom_column_name ds) actual old = Inr b"
      by (cases "already_changed (geom_column_name ds) actual old") (auto simp: Let_def dest: already_changed_error)
    have sf: "stored_feature ds old = Some actual" using pk actual by (simp add: stored_feature_def)
    have full: "b = (actual \<noteq> old)" by (rule already_changed_full[OF b sf here])
    show ?thesis
    proof (cases b)
      case True
      show ?thesis
      proof (rule conflict_case)
        show "write_updates py_str blob_id ds (x # xs) c st = write_updates py_str blob_id ds xs True
                (echo (path ds @ '': Trying to update already-changed feature: '' @ py_str pk) st)"
          using x pk False actual b True by (auto simp: Let_def)
        show "apply_batch py_str blob_id ds (map (\<lambda>(_, old, new). Update old new) (x # xs)) st
                = apply_batch py_str blob_id ds ?cs (echo (path ds @ '': Trying to update already-changed feature: '' @ py_str pk) st)"
          using x pk sp False sf full True by auto
      qed
    next
      case nb: False
      let ?st1 = "apply_change blob_id ds (Update old new) st"
      have step: "write_updates py_str blob_id ds (x # xs) c st = write_updates py_str blob_id ds xs c ?st1"
        using x pk sp False actual b nb by (auto simp: Let_def case_prod_beta create_blob_def)
      have batch: "apply_batch py_str blob_id ds (map (\<lambda>(_, old, new). Update old new) (x # xs)) st
                     = apply_batch py_str blob_id ds ?cs ?st1"
        using x pk sp False sf full nb by auto
      have "\<forall>s. write_updates py_str blob_id ds xs c ?st1 \<noteq> Raised KeyError s"
        using Cons.prems(1) step by simp
      from Cons.IH[OF this rest]
      have ih: "write_updates py_str blob_id ds xs c ?st1 = Returned (c \<or> length (echoed ?st1) < length (echoed (apply_batch py_str blob_id ds ?cs ?st1))) (apply_batch py_str blob_id ds ?cs ?st1)" .
      have "echoed ?st1 = echoed st" by (rule echoed_apply_change)
      then show ?thesis unfolding step batch ih by simp
    qed
  qed
qed

text \<open>
  C3 (as amended). For every dataset diff whose meta part is empty, whose application
  raises no \<open>KeyError\<close>, and none of whose updates finds a stored feature that differs
  from the expected old value in the geometry column only, \<open>write_index\<close> processes every
  delta (deletes, then inserts, then updates) before failing: each conflicting delta
  (a delete whose path is not in the index, an insert whose path is already there, an
  update whose old path is not in the index or whose stored content is not the expected
  old value) is reported and skipped, every other delta is applied to the index, and
  exactly one \<open>InvalidOperation\<close> with exit code \<open>PATCH_DOES_NOT_APPLY\<close> is raised at the
  end if and only if at least one conflict was reported.
\<close>

theorem write_index_batches_conflicts:
  assumes meta: "META dd = []"
    and nocrash: "\<forall>s. write_index py_str blob_id ds dd st \<noteq> Raised KeyError s"
    and full: "compared_in_full ds dd"
  shows "write_index py_str blob_id ds dd st =
           (let s = apply_batch py_str blob_id ds (changes dd) st in
            if length (echoed st) < length (echoed s)
            then Raised (InvalidOperation PATCH_DOES_NOT_APPLY) s
            else Returned () s)"
proof -
  let ?cd = "map (\<lambda>(_, old). Delete old) (D dd)"
  let ?ci = "map Insert (I dd)"
  let ?cu = "map (\<lambda>(_, old, new). Update old new) (U dd)"
  let ?s1 = "apply_batch py_str blob_id ds ?cd st"
  let ?s2 = "apply_batch py_str blob_id ds ?ci ?s1"
  let ?s3 = "apply_batch py_str blob_id ds ?cu ?s2"
  let ?c1 = "length (echoed st) < length (echoed ?s1)"
  let ?c2 = "?c1 \<or> length (echoed ?s1) < length (echoed ?s2)"
  let ?c3 = "?c2 \<or> length (echoed ?s2) < length (echoed ?s3)"
  have d0: "\<forall>s. write_deletes py_str ds (D dd) False st \<noteq> Raised KeyError s"
    using nocrash meta by (auto simp: write_index_def)
  have d: "write_deletes py_str ds (D dd) False st = Returned ?c1 ?s1"
    using write_deletes_batch[OF d0, of blob_id] by simp
  have i0: "\<forall>s. write_inserts py_str blob_id ds (I dd) ?c1 ?s1 \<noteq> Raised KeyError s"
    using nocrash meta d by (auto simp: write_index_def)
  have i: "write_inserts py_str blob_id ds (I dd) ?c1 ?s1 = Returned ?c2 ?s2"
    using write_inserts_batch[OF i0] by simp
  have u0: "\<forall>s. write_updates py_str blob_id ds (U dd) ?c2 ?s2 \<noteq> Raised KeyError s"
    using nocrash meta d i by (auto simp: write_index_def)
  have u1: "list_all (\<lambda>(_, old, _). \<not> geometry_only_mismatch ds old) (U dd)"
    using full by (simp add: compared_in_full_def)
  have u: "write_updates py_str blob_id ds (U dd) ?c2 ?s2 = Returned ?c3 ?s3"
    using write_updates_batch[OF u0 u1] by simp
  have s3: "apply_batch py_str blob_id ds (changes dd) st = ?s3"
    by (simp add: changes_def apply_batch_append)
  have m1: "length (echoed st) \<le> length (echoed ?s1)" by (rule apply_batch_echoed_mono)
  have m2: "length (echoed ?s1) \<le> length (echoed ?s2)" by (rule apply_batch_echoed_mono)
  have m3: "length (echoed ?s2) \<le> length (echoed ?s3)" by (rule apply_batch_echoed_mono)
  have c3: "?c3 \<longleftrightarrow> length (echoed st) < length (echoed ?s3)"
    using m1 m2 m3 by linarith
  show ?thesis
    unfolding s3 Let_def using meta d i u c3 by (simp add: write_index_def)
qed

lemma differ_on_n: "f ''n'' \<noteq> g ''n'' \<Longrightarrow> f \<noteq> g"
  by auto

lemma points_patch_run:
  "write_index (\<lambda>s. s) points_blob_id points_ds points_patch points_index =
     Raised (InvalidOperation PATCH_DOES_NOT_APPLY)
       \<lparr> index = [''.sno-table/2'' \<mapsto> (''a2'', GIT_FILEMODE_BLOB),
                   ''.sno-table/3'' \<mapsto> (''#3;P3;x;'', GIT_FILEMODE_BLOB),
                   ''.sno-table/1'' \<mapsto> (''#1;P1;FIVE;'', GIT_FILEMODE_BLOB)],
         odb = [''#3;P3;x;'' \<mapsto> ''3;P3;x;'', ''#1;P1;FIVE;'' \<mapsto> ''1;P1;FIVE;''],
         echoed = [''points: Trying to delete nonexistent feature: 9'',
                   ''points: Trying to update already-changed feature: 2''] \<rparr>"
  by (simp add: write_index_def points_ds_def points_patch_def points_index_def feature9_def
      points_blob_id_def echo_def index_add_def index_remove_def create_blob_def dict_pop_def
      fun_upd_twist differ_on_n)

lemma points_patch_compared_in_full: "compared_in_full points_ds points_patch"
  by (auto simp add: compared_in_full_def geometry_only_mismatch_def stored_feature_def
      points_ds_def points_patch_def dest: fun_cong[where x = "''n''"])

theorem write_index_batches_conflicts_witness:
  "META points_patch = [] \<and>
   (\<forall>s. write_index (\<lambda>s. s) points_blob_id points_ds points_patch points_index
          \<noteq> Raised KeyError s) \<and>
   compared_in_full points_ds points_patch \<and>
   write_index (\<lambda>s. s) points_blob_id points_ds points_patch points_index =
     (let s = apply_batch (\<lambda>s. s) points_blob_id points_ds (changes points_patch) points_index in
      if length (echoed points_index) < length (echoed s)
      then Raised (InvalidOperation PATCH_DOES_NOT_APPLY) s
      else Returned () s) \<and>
   echoed (apply_batch (\<lambda>s. s) points_blob_id points_ds (changes points_patch) points_index)
     = [''points: Trying to delete nonexistent feature: 9'',
        ''points: Trying to update already-changed feature: 2'']"
proof -
  have m: "META points_patch = []" by (simp add: points_patch_def)
  have n: "\<forall>s. write_index (\<lambda>s. s) points_blob_id points_ds points_patch points_index
                 \<noteq> Raised KeyError s"
    using points_patch_run by simp
  note f = points_patch_compared_in_full
  note inst = write_index_batches_conflicts[OF m n f]
  have "Raised (InvalidOperation PATCH_DOES_NOT_APPLY)
          (apply_batch (\<lambda>s. s) points_blob_id points_ds (changes points_patch) points_index)
        = write_index (\<lambda>s. s) points_blob_id points_ds points_patch points_index"
    using inst points_patch_run by (simp add: Let_def split: if_splits)
  then have "apply_batch (\<lambda>s. s) points_blob_id points_ds (changes points_patch) points_index
     = \<lparr> index = [''.sno-table/2'' \<mapsto> (''a2'', GIT_FILEMODE_BLOB),
                   ''.sno-table/3'' \<mapsto> (''#3;P3;x;'', GIT_FILEMODE_BLOB),
                   ''.sno-table/1'' \<mapsto> (''#1;P1;FIVE;'', GIT_FILEMODE_BLOB)],
         odb = [''#3;P3;x;'' \<mapsto> ''3;P3;x;'', ''#1;P1;FIVE;'' \<mapsto> ''1;P1;FIVE;''],
         echoed = [''points: Trying to delete nonexistent feature: 9'',
                   ''points: Trying to update already-changed feature: 2''] \<rparr>"
    unfolding points_patch_run by (simp only: outcome.inject)
  then have e: "echoed (apply_batch (\<lambda>s. s) points_blob_id points_ds (changes points_patch) points_index)
     = [''points: Trying to delete nonexistent feature: 9'',
        ''points: Trying to update already-changed feature: 2'']"
    by (simp only: wstate.select_convs)
  show ?thesis using m n f inst e by simp
qed

text \<open>
  C3 as stated fails for a diff with a non-empty meta part: its delete of the absent
  feature 9 conflicts with the index, but nothing is reported and the failure raised is
  \<open>NotYetImplemented\<close>, not \<open>PATCH_DOES_NOT_APPLY\<close>.
\<close>

theorem write_index_batches_conflicts_counterexample:
  "Delete feature9 \<in> set (changes meta_patch) \<and>
   apply_conflict points_ds (index points_index) (Delete feature9) \<and>
   write_index (\<lambda>s. s) points_blob_id points_ds meta_patch points_index
     = Raised NotYetImplemented points_index \<and>
   echoed points_index = []"
  by (simp add: write_index_def meta_patch_def changes_def stored_path_def points_ds_def
      points_index_def feature9_def)

text \<open>
  C9. When \<open>geom_column_name\<close> is set (and not empty), the check of an update whose old
  path is in the index compares the stored feature with the expected old value on every
  column but the geometry column: when the two agree there, also when their geometries
  differ, the update is applied (the loop goes on with the same conflict flag and nothing
  reported, the old path removed and the new feature added); when they differ there, the
  update is reported as a conflict and skipped.
\<close>

theorem write_updates_ignores_geometry:
  assumes "geom_column_name ds = Some g" "g \<noteq> []"
    and "old_feature (primary_key ds) = Some old_pk"
    and "index st (encode_1pk_to_path ds old_pk) \<noteq> None"
    and "get_feature ds old_pk None = Some actual"
    and "actual g \<noteq> None" "old_feature g \<noteq> None"
  shows "write_updates py_str blob_id ds ((k, (old_feature, new_feature)) # rest) flag st =
         (if actual(g := None) = old_feature(g := None)
          then write_updates py_str blob_id ds rest flag
                 (index_add (fst (encode_feature ds new_feature))
                    (blob_id (snd (encode_feature ds new_feature))) GIT_FILEMODE_BLOB
                    (snd (create_blob blob_id (snd (encode_feature ds new_feature))
                           (index_remove (encode_1pk_to_path ds old_pk) st))))
          else write_updates py_str blob_id ds rest True
                 (echo (path ds @ '': Trying to update already-changed feature: ''
                          @ py_str old_pk) st))"
proof -
  have "already_changed (Some g) actual old_feature
          = Inr (actual(g := None) \<noteq> old_feature(g := None))"
    using assms(2,6,7) by (auto simp: dict_pop_def)
  moreover obtain e where "index st (encode_1pk_to_path ds old_pk) = Some e"
    using assms(4) by blast
  ultimately show ?thesis
    using assms(1,3,5) by (simp add: create_blob_def Let_def case_prod_beta)
qed

theorem write_updates_ignores_geometry_witness:
  "geom_column_name points_ds = Some ''geom'' \<and> expected1 (primary_key points_ds) = Some ''1'' \<and>
   index points_index (encode_1pk_to_path points_ds ''1'') \<noteq> None \<and>
   get_feature points_ds ''1'' None = Some stored1 \<and>
   stored1 ''geom'' \<noteq> expected1 ''geom'' \<and>
   stored1(''geom'' := None) = expected1(''geom'' := None) \<and>
   write_updates (\<lambda>s. s) points_blob_id points_ds [(''1'', (expected1, updated1))] False points_index
     = Returned False
         \<lparr> index = [''.sno-table/2'' \<mapsto> (''a2'', GIT_FILEMODE_BLOB),
                     ''.sno-table/1'' \<mapsto> (''#1;P1;FIVE;'', GIT_FILEMODE_BLOB)],
           odb = [''#1;P1;FIVE;'' \<mapsto> ''1;P1;FIVE;''], echoed = [] \<rparr>"
proof -
  have h1: "geom_column_name points_ds = Some ''geom''" by (simp add: points_ds_def)
  have h2: "''geom'' \<noteq> []" by simp
  have h3: "expected1 (primary_key points_ds) = Some ''1''"
    by (simp add: points_ds_def expected1_def)
  have h4: "index points_index (encode_1pk_to_path points_ds ''1'') \<noteq> None"
    by (simp add: points_ds_def points_index_def)
  have h5: "get_feature points_ds ''1'' None = Some stored1"
    by (simp add: points_ds_def stored1_def)
  have h6: "stored1 ''geom'' \<noteq> None" by (simp add: stored1_def)
  have h7: "expected1 ''geom'' \<noteq> None" by (simp add: expected1_def)
  have h9: "stored1(''geom'' := None) = expected1(''geom'' := None)"
    by (simp add: stored1_def expected1_def)
  have d: "stored1 ''geom'' \<noteq> expected1 ''geom''" by (simp add: stored1_def expected1_def)
  have r: "index_add (fst (encode_feature points_ds updated1))
              (points_blob_id (snd (encode_feature points_ds updated1))) GIT_FILEMODE_BLOB
              (snd (create_blob points_blob_id (snd (encode_feature points_ds updated1))
                     (index_remove (encode_1pk_to_path points_ds ''1'') points_index)))
    = \<lparr> index = [''.sno-table/2'' \<mapsto> (''a2'', GIT_FILEMODE_BLOB),
                     ''.sno-table/1'' \<mapsto> (''#1;P1;FIVE;'', GIT_FILEMODE_BLOB)],
           odb = [''#1;P1;FIVE;'' \<mapsto> ''1;P1;FIVE;''], echoed = [] \<rparr>"
    by (simp add: points_ds_def points_index_def updated1_def points_blob_id_def index_add_def
        index_remove_def create_blob_def fun_upd_twist)
  note inst = write_updates_ignores_geometry[OF h1 h2 h3 h4 h5 h6 h7,
      of "\<lambda>s. s" points_blob_id "''1''" updated1 "[]" False]
  show ?thesis
    using h1 h3 h4 h5 h9 d inst unfolding r by (simp only: h9 if_True write_updates.simps simp_thms)
qed

text \<open>
  C10. For every dataset diff whose meta part is not empty, \<open>write_index\<close> raises
  \<open>NotYetImplemented\<close> before it looks at any feature delta: the index, the repository
  and the output are as they were.
\<close>

theorem write_index_meta_not_yet_implemented:
  "META dd \<noteq> [] \<Longrightarrow> write_index py_str blob_id ds dd st = Raised NotYetImplemented st"
  by (simp add: write_index_def)

theorem write_index_meta_not_yet_implemented_witness:
  "META meta_patch \<noteq> [] \<and>
   write_index (\<lambda>s. s) points_blob_id points_ds meta_patch points_index
     = Raised NotYetImplemented points_index"
proof -
  have m: "META meta_patch \<noteq> []" by (simp add: meta_patch_def)
  show ?thesis using m write_index_meta_not_yet_implemented[OF m] by simp
qed

section \<open>Properties of diff\<close>

lemma diff_delta_meta:
  "\<not> feature_delta d \<Longrightarrow> diff_delta py_str old new other pk_filter d c = Inr c"
  by (auto simp: feature_delta_def diff_delta_def)

lemma diff_deltas_filter_meta:
  "diff_deltas py_str old new other pk_filter (filter feature_delta ds) c
     = diff_deltas py_str old new other pk_filter ds c"
proof (induction ds arbitrary: c)
  case Nil show ?case by simp
next
  case (Cons d ds)
  show ?case
  proof (cases "feature_delta d")
    case True
    then show ?thesis using Cons.IH by (simp split: sum.splits)
  next
    case False
    then show ?thesis using Cons.IH by (simp add: diff_delta_meta)
  qed
qed

text \<open>
  C6. The deltas with a path under the meta namespace contribute nothing to the diff:
  \<open>diff\<close> gives the same result (the same inserts, updates and deletes, or the same
  error) as on the deltas that are left when every delta whose old or new path is under
  \<open>.sno-table/meta/\<close> is taken out.
\<close>

theorem diff_excludes_meta_paths:
  "diff_of_deltas py_str old new other pk_filter deltas
     = diff_of_deltas py_str old new other pk_filter (filter feature_delta deltas)
   \<and> diff py_str self other pk_filter reverse
     = diff_of_deltas py_str (if reverse then other else Some self)
         (if reverse then Some self else other) other pk_filter
         (filter feature_delta (diff_index_of self other reverse))"
  by (simp add: diff_def diff_of_deltas_def diff_staged_def diff_deltas_filter_meta Let_def)

lemma diff_deltas_append:
  "diff_deltas py_str old new other pk_filter (xs @ ys) c =
     (case diff_deltas py_str old new other pk_filter xs c of
        Inl e \<Rightarrow> Inl e
      | Inr c' \<Rightarrow> diff_deltas py_str old new other pk_filter ys c')"
  by (induction xs arbitrary: c) (simp_all split: sum.splits)

lemma diff_delta_unsupported:
  "feature_delta d \<Longrightarrow> \<not> supported_status (status d) \<Longrightarrow>
     diff_delta py_str old new other pk_filter d c = Inl NotImplementedError"
  by (simp add: feature_delta_def supported_status_def diff_delta_def)

text \<open>
  C7. For every delta that the loop looks at (the deltas under the meta namespace are
  discarded first) whose status is not added, deleted or modified, \<open>diff\<close> raises and
  returns no diff: \<open>NotImplementedError\<close>, or the error of a delta before it that has
  already made the loop fail.
\<close>

theorem diff_unsupported_status_raises:
  assumes "feature_delta d" and "\<not> supported_status (status d)"
  shows "diff_of_deltas py_str old new other pk_filter (before @ d # after) =
           (case diff_deltas py_str old new other pk_filter before
                   \<lparr>candidates_ins = [], candidates_upd = [], candidates_del = []\<rparr> of
              Inl e \<Rightarrow> Inl e
            | Inr c \<Rightarrow> Inl NotImplementedError)"
  using assms
  by (simp add: diff_of_deltas_def diff_staged_def diff_deltas_append diff_delta_unsupported
      split: sum.splits)

theorem diff_unsupported_status_raises_witness:
  "feature_delta \<lparr>status = GIT_DELTA_TYPECHANGE, old_file_path = ''.sno-table/1'', new_file_path = ''.sno-table/1''\<rparr> \<and>
   \<not> supported_status GIT_DELTA_TYPECHANGE \<and>
   diff_of_deltas (\<lambda>s. s) (Some points_ds) (Some points_ds) (Some points_ds) UNIV
      [\<lparr>status = GIT_DELTA_DELETED, old_file_path = ''.sno-table/2'', new_file_path = ''.sno-table/2''\<rparr>,
       \<lparr>status = GIT_DELTA_TYPECHANGE, old_file_path = ''.sno-table/1'', new_file_path = ''.sno-table/1''\<rparr>]
    = Inl NotImplementedError"
proof -
  let ?d = "\<lparr>status = GIT_DELTA_TYPECHANGE, old_file_path = ''.sno-table/1'', new_file_path = ''.sno-table/1''\<rparr>"
  let ?b = "[\<lparr>status = GIT_DELTA_DELETED, old_file_path = ''.sno-table/2'', new_file_path = ''.sno-table/2''\<rparr>]"
  have f: "feature_delta ?d" by (simp add: feature_delta_def meta_path_def)
  have s: "\<not> supported_status (status ?d)" by (simp add: supported_status_def)
  have b: "diff_deltas (\<lambda>s. s) (Some points_ds) (Some points_ds) (Some points_ds) UNIV ?b
             \<lparr>candidates_ins = [], candidates_upd = [], candidates_del = []\<rparr>
           = Inr \<lparr>candidates_ins = [], candidates_upd = [],
                 candidates_del = [(''2'', [(''2'', [''fid'' \<mapsto> ''2'', ''geom'' \<mapsto> ''P2'', ''n'' \<mapsto> ''six''])])]\<rparr>"
    by (simp add: diff_delta_def meta_path_def call_decode_path_to_1pk_def call_get_feature_def
        points_ds_def defaultdict_append_def)
  note inst = diff_unsupported_status_raises[OF f s, of "\<lambda>s. s" "Some points_ds" "Some points_ds" "Some points_ds" UNIV ?b "[]"]
  show ?thesis
    using f s inst[unfolded b] by simp
qed

lemma move_index: "diff_index_of before_move (Some after_move) False =
   [\<lparr>status = GIT_DELTA_DELETED, old_file_path = ''.sno-table/1'', new_file_path = ''.sno-table/1''\<rparr>,
    \<lparr>status = GIT_DELTA_ADDED, old_file_path = ''.sno-table/2'', new_file_path = ''.sno-table/2''\<rparr>]"
  by (simp add: diff_index_of_def diff_to_tree_def before_move_def after_move_def points_ds_def)

lemma move_facts:
  "decode_path_to_1pk before_move ''.sno-table/1'' = Inr ''1''"
  "decode_path_to_1pk after_move ''.sno-table/2'' = Inr ''2''"
  "get_feature before_move ''1'' (Some False) = Some cafe"
  "get_feature after_move ''2'' (Some False) = Some cafe"
  by (simp_all add: before_move_def after_move_def points_ds_def)

text \<open>
  C1 as stated fails: the candidates are bucketed by the string of the key, so the same
  content under two different keys is a delete and an insert, and no update.
\<close>

theorem diff_move_counterexample:
  "diff (\<lambda>s. s) before_move (Some after_move) UNIV False
     = Inr \<lparr>META = [], I = [cafe], D = [(''1'', cafe)], U = []\<rparr>"
  by (simp add: diff_def move_index move_facts diff_of_deltas_def diff_staged_def diff_delta_def meta_path_def
      call_decode_path_to_1pk_def call_get_feature_def defaultdict_append_def
      make_diff_def dict_of_def)

lemma detect_renames_fifo:
  "map_of (candidates_ins c) h = Some (g # gs) \<Longrightarrow> map_of (candidates_del c) h = Some ((k, f) # ds) \<Longrightarrow>
     detect_renames (h # hs) c =
       detect_renames hs \<lparr>candidates_ins = pop_bucket h gs (candidates_ins c),
                          candidates_upd = AList.update k (f, g) (candidates_upd c),
                          candidates_del = pop_bucket h ds (candidates_del c)\<rparr>"
  by simp

lemma diff_of_two_deltas:
  assumes deltas: "deltas = [d1, d2] \<or> deltas = [d2, d1]"
    and d1: "d1 = \<lparr>status = GIT_DELTA_DELETED, old_file_path = p1, new_file_path = p1\<rparr>"
    and d2: "d2 = \<lparr>status = GIT_DELTA_ADDED, old_file_path = p2, new_file_path = p2\<rparr>"
    and nm: "\<not> meta_path p1" "\<not> meta_path p2"
    and dec: "decode_path_to_1pk self p1 = Inr k1" "decode_path_to_1pk other p2 = Inr k2"
    and flt: "py_str k1 \<in> pk_filter" "py_str k2 \<in> pk_filter"
    and get: "get_feature self k1 (Some False) = Some f1" "get_feature other k2 (Some False) = Some f2"
  shows "diff_of_deltas py_str (Some self) (Some other) (Some other) pk_filter deltas =
           Inr (if py_str k1 = py_str k2
                then \<lparr>META = [], I = [], D = [], U = [(py_str k1, (f1, f2))]\<rparr>
                else \<lparr>META = [], I = [f2], D = [(py_str k1, f1)], U = []\<rparr>)"
proof -
  have s1: "diff_delta py_str (Some self) (Some other) (Some other) pk_filter d1 c
              = Inr (c\<lparr>candidates_del := defaultdict_append (py_str k1) (py_str k1, f1) (candidates_del c)\<rparr>)" for c
    using d1 nm dec flt get
    by (simp add: diff_delta_def call_decode_path_to_1pk_def call_get_feature_def)
  have s2: "diff_delta py_str (Some self) (Some other) (Some other) pk_filter d2 c
              = Inr (c\<lparr>candidates_ins := defaultdict_append (py_str k2) f2 (candidates_ins c)\<rparr>)" for c
    using d2 nm dec flt get
    by (simp add: diff_delta_def call_decode_path_to_1pk_def call_get_feature_def)
  have loop: "diff_deltas py_str (Some self) (Some other) (Some other) pk_filter deltas
                \<lparr>candidates_ins = [], candidates_upd = [], candidates_del = []\<rparr>
              = Inr \<lparr>candidates_ins = [(py_str k2, [f2])], candidates_upd = [],
                     candidates_del = [(py_str k1, [(py_str k1, f1)])]\<rparr>"
    using deltas by (auto simp: s1 s2 defaultdict_append_def)
  show ?thesis
    by (simp add: diff_of_deltas_def diff_staged_def loop make_diff_def dict_of_def pop_bucket_def)
qed

text \<open>
  C1 (as amended). For any two snapshots whose only changes are a deleted path of key
  \<open>k1\<close> and an added path of key \<open>k2\<close>, \<open>diff\<close> returns exactly one update, keyed by
  \<open>k1\<close>, when the two keys have the same string, and otherwise one delete of \<open>k1\<close> and
  one insert, whether the two contents are equal or not. The deletion and insertion
  candidates are bucketed by the string of the key, not by a fingerprint of the content,
  and paired first with first within a bucket.
\<close>

theorem diff_pairs_by_identity:
  assumes deltas: "diff_index_of self (Some other) False = [d1, d2]
                     \<or> diff_index_of self (Some other) False = [d2, d1]"
    and d1: "d1 = \<lparr>status = GIT_DELTA_DELETED, old_file_path = p1, new_file_path = p1\<rparr>"
    and d2: "d2 = \<lparr>status = GIT_DELTA_ADDED, old_file_path = p2, new_file_path = p2\<rparr>"
    and nm: "\<not> meta_path p1" "\<not> meta_path p2"
    and dec: "decode_path_to_1pk self p1 = Inr k1" "decode_path_to_1pk other p2 = Inr k2"
    and flt: "py_str k1 \<in> pk_filter" "py_str k2 \<in> pk_filter"
    and get: "get_feature self k1 (Some False) = Some f1" "get_feature other k2 (Some False) = Some f2"
  shows "diff py_str self (Some other) pk_filter False =
           Inr (if py_str k1 = py_str k2
                then \<lparr>META = [], I = [], D = [], U = [(py_str k1, (f1, f2))]\<rparr>
                else \<lparr>META = [], I = [f2], D = [(py_str k1, f1)], U = []\<rparr>)
         \<and> (\<forall>c h g gs k f ds hs.
               map_of (candidates_ins c) h = Some (g # gs) \<and>
               map_of (candidates_del c) h = Some ((k, f) # ds) \<longrightarrow>
               detect_renames (h # hs) c =
                 detect_renames hs
                   \<lparr>candidates_ins = pop_bucket h gs (candidates_ins c),
                    candidates_upd = AList.update k (f, g) (candidates_upd c),
                    candidates_del = pop_bucket h ds (candidates_del c)\<rparr>)"
  using diff_of_two_deltas[OF deltas d1 d2 nm dec flt get] detect_renames_fifo
  by (simp add: diff_def)

lemma rehash_index: "diff_index_of before_move (Some rehashed) False =
   [\<lparr>status = GIT_DELTA_DELETED, old_file_path = ''.sno-table/1'', new_file_path = ''.sno-table/1''\<rparr>,
    \<lparr>status = GIT_DELTA_ADDED, old_file_path = ''.sno-table/x1'', new_file_path = ''.sno-table/x1''\<rparr>]"
  by (simp add: diff_index_of_def diff_to_tree_def before_move_def rehashed_def points_ds_def)

lemma rehash_facts:
  "decode_path_to_1pk rehashed ''.sno-table/x1'' = Inr ''1''"
  "get_feature rehashed ''1'' (Some False) = Some cafe"
  by (simp_all add: rehashed_def points_ds_def)

theorem diff_pairs_by_identity_witness:
  "diff (\<lambda>s. s) before_move (Some rehashed) UNIV False
     = Inr \<lparr>META = [], I = [], D = [], U = [(''1'', (cafe, cafe))]\<rparr> \<and>
   detect_renames [''7'']
     \<lparr>candidates_ins = [(''7'', [stored1, updated1])], candidates_upd = [],
      candidates_del = [(''7'', [(''7'', cafe), (''7'', expected1)])]\<rparr>
     = Inr \<lparr>candidates_ins = [(''7'', [updated1])], candidates_upd = [(''7'', (cafe, stored1))],
            candidates_del = [(''7'', [(''7'', expected1)])]\<rparr>"
proof -
  let ?d1 = "\<lparr>status = GIT_DELTA_DELETED, old_file_path = ''.sno-table/1'', new_file_path = ''.sno-table/1''\<rparr>"
  let ?d2 = "\<lparr>status = GIT_DELTA_ADDED, old_file_path = ''.sno-table/x1'', new_file_path = ''.sno-table/x1''\<rparr>"
  let ?c = "\<lparr>candidates_ins = [(''7'', [stored1, updated1])], candidates_upd = [],
      candidates_del = [(''7'', [(''7'', cafe), (''7'', expected1)])]\<rparr>"
  have ix: "diff_index_of before_move (Some rehashed) False = [?d1, ?d2]
              \<or> diff_index_of before_move (Some rehashed) False = [?d2, ?d1]"
    by (simp add: rehash_index)
  have nm: "\<not> meta_path ''.sno-table/1''" "\<not> meta_path ''.sno-table/x1''"
    by (simp_all add: meta_path_def)
  have flt: "(\<lambda>s. s) ''1'' \<in> (UNIV :: string set)" by simp
  note inst = diff_pairs_by_identity[where py_str = "\<lambda>s. s", OF ix refl refl nm move_facts(1) rehash_facts(1) flt flt
          move_facts(3) rehash_facts(2)]
  have buckets: "map_of (candidates_ins ?c) ''7'' = Some (stored1 # [updated1]) \<and>
        map_of (candidates_del ?c) ''7'' = Some ((''7'', cafe) # [(''7'', expected1)])"
    by simp
  from inst[THEN conjunct2, rule_format, OF buckets, of "[]"]
  have fifo: "detect_renames [''7''] ?c
     = Inr \<lparr>candidates_ins = [(''7'', [updated1])], candidates_upd = [(''7'', (cafe, stored1))],
            candidates_del = [(''7'', [(''7'', expected1)])]\<rparr>"
    by (simp add: pop_bucket_def)
  from inst[THEN conjunct1] fifo show ?thesis by simp
qed

section \<open>The inverse law of diff\<close>

subsection \<open>The tree diff in both directions\<close>

lemma diff_trees_swap: "diff_trees b a = map swap_delta (diff_trees a b)"
proof (induction a b rule: diff_trees.induct)
  case 1 show ?case by simp
next
  case (2 p a old) then show ?case by (simp add: swap_delta_def)
next
  case (3 q b new) then show ?case by (simp add: swap_delta_def)
next
  case (4 p a old q b new)
  then show ?case by (auto simp: swap_delta_def)
qed

lemma diff_trees_supported:
  "d \<in> set (diff_trees a b) \<Longrightarrow> supported_status (status d) \<and> old_file_path d = new_file_path d"
  by (induction a b rule: diff_trees.induct) (auto simp: supported_status_def split: if_splits)

lemma diff_trees_modified:
  "d \<in> set (diff_trees a b) \<Longrightarrow> status d = GIT_DELTA_MODIFIED \<Longrightarrow>
     old_file_path d \<in> fst ` set a \<and> old_file_path d \<in> fst ` set b"
  by (induction a b rule: diff_trees.induct) (auto split: if_splits)

lemma diff_trees_deleted_subseq:
  "subseq (map old_file_path (filter (\<lambda>d. status d = GIT_DELTA_DELETED) (diff_trees a b))) (map fst a)"
  by (induction a b rule: diff_trees.induct) auto

lemma diff_trees_added_subseq:
  "subseq (map new_file_path (filter (\<lambda>d. status d = GIT_DELTA_ADDED) (diff_trees a b))) (map fst b)"
  by (induction a b rule: diff_trees.induct) auto


subsection \<open>The loop, forwards and backwards\<close>

lemma map_of_tag_buckets:
  "map_of (tag_buckets al) k = map_option (map (Pair k)) (map_of al k)"
  by (induction al) (auto simp: tag_buckets_def)

lemma update_tag_buckets:
  "AList.update k (map (Pair k) fs) (tag_buckets al) = tag_buckets (AList.update k fs al)"
  by (induction al) (auto simp: tag_buckets_def)

lemma defaultdict_append_tag_buckets:
  "defaultdict_append k (k, f) (tag_buckets al) = tag_buckets (defaultdict_append k f al)"
  using update_tag_buckets[of k "(case map_of al k of None \<Rightarrow> [] | Some xs \<Rightarrow> xs) @ [f]" al]
  by (simp add: defaultdict_append_def map_of_tag_buckets split: option.splits)

lemma update_flip_updates:
  "AList.update k (new, old) (flip_updates al) = flip_updates (AList.update k (old, new) al)"
  by (induction al) (auto simp: flip_updates_def)

lemma mirrored_step:
  assumes st: "supported_status (status d)" and same: "old_file_path d = new_file_path d"
    and agree: "\<And>k k'. status d = GIT_DELTA_MODIFIED \<Longrightarrow> feature_delta d \<Longrightarrow>
                  decode_path_to_1pk a (old_file_path d) = Inr k \<Longrightarrow>
                  decode_path_to_1pk b (old_file_path d) = Inr k' \<Longrightarrow> py_str k = py_str k'"
    and m: "mirrored c1 c2"
    and fwd: "diff_delta py_str (Some a) (Some b) (Some b) pk_filter d c1 = Inr c1'"
  shows "\<exists>c2'. diff_delta py_str (Some b) (Some a) (Some a) pk_filter (swap_delta d) c2 = Inr c2'
                \<and> mirrored c1' c2'"
proof (cases "feature_delta d")
  case False
  then show ?thesis using same m fwd
    by (auto simp: feature_delta_def diff_delta_def swap_delta_def)
next
  case True
  then have nm: "\<not> meta_path (old_file_path d)" "\<not> meta_path (new_file_path d)"
    by (simp_all add: feature_delta_def)
  let ?p = "old_file_path d"
  from st consider (del) "status d = GIT_DELTA_DELETED" | (add) "status d = GIT_DELTA_ADDED"
    | (mod) "status d = GIT_DELTA_MODIFIED"
    by (auto simp: supported_status_def)
  then show ?thesis
  proof cases
    case del
    from fwd del nm obtain k where k: "decode_path_to_1pk a ?p = Inr k"
      by (auto simp: diff_delta_def call_decode_path_to_1pk_def split: sum.splits)
    show ?thesis
    proof (cases "py_str k \<in> pk_filter")
      case False
      then show ?thesis using fwd del nm k same m
        by (auto simp: diff_delta_def swap_delta_def call_decode_path_to_1pk_def)
    next
      case True
      from fwd del nm k True obtain f where f: "get_feature a k (Some False) = Some f"
        by (auto simp: diff_delta_def call_decode_path_to_1pk_def call_get_feature_def
            split: option.splits)
      have c1': "c1' = c1\<lparr>candidates_del :=
                   defaultdict_append (py_str k) (py_str k, f) (candidates_del c1)\<rparr>"
        using fwd del nm k True f
        by (simp add: diff_delta_def call_decode_path_to_1pk_def call_get_feature_def)
      have rev: "diff_delta py_str (Some b) (Some a) (Some a) pk_filter (swap_delta d) c2
                   = Inr (c2\<lparr>candidates_ins :=
                            defaultdict_append (py_str k) f (candidates_ins c2)\<rparr>)"
        using del nm k True f same
        by (simp add: diff_delta_def swap_delta_def call_decode_path_to_1pk_def
            call_get_feature_def)
      show ?thesis unfolding rev using m c1'
        by (simp add: mirrored_def defaultdict_append_tag_buckets)
    qed
  next
    case add
    from fwd add nm same obtain k where k: "decode_path_to_1pk b ?p = Inr k"
      by (auto simp: diff_delta_def call_decode_path_to_1pk_def split: sum.splits)
    show ?thesis
    proof (cases "py_str k \<in> pk_filter")
      case False
      then show ?thesis using fwd add nm k same m
        by (auto simp: diff_delta_def swap_delta_def call_decode_path_to_1pk_def)
    next
      case True
      from fwd add nm k True same obtain f where f: "get_feature b k (Some False) = Some f"
        by (auto simp: diff_delta_def call_decode_path_to_1pk_def call_get_feature_def
            split: option.splits)
      have c1': "c1' = c1\<lparr>candidates_ins :=
                   defaultdict_append (py_str k) f (candidates_ins c1)\<rparr>"
        using fwd add nm k True f same
        by (simp add: diff_delta_def call_decode_path_to_1pk_def call_get_feature_def)
      have rev: "diff_delta py_str (Some b) (Some a) (Some a) pk_filter (swap_delta d) c2
                   = Inr (c2\<lparr>candidates_del :=
                            defaultdict_append (py_str k) (py_str k, f) (candidates_del c2)\<rparr>)"
        using add nm k True f same
        by (simp add: diff_delta_def swap_delta_def call_decode_path_to_1pk_def
            call_get_feature_def)
      show ?thesis unfolding rev using m c1'
        by (simp add: mirrored_def defaultdict_append_tag_buckets)
    qed
  next
    case mod
    from fwd mod nm obtain k where k: "decode_path_to_1pk a ?p = Inr k"
      by (auto simp: diff_delta_def call_decode_path_to_1pk_def split: sum.splits)
    from fwd mod nm k same obtain k' where k': "decode_path_to_1pk b ?p = Inr k'"
      by (auto simp: diff_delta_def call_decode_path_to_1pk_def split: sum.splits)
    have eq: "py_str k = py_str k'" using agree[OF mod True k k'] .
    show ?thesis
    proof (cases "py_str k \<in> pk_filter")
      case False
      then show ?thesis using fwd mod nm k k' eq same m
        by (auto simp: diff_delta_def swap_delta_def call_decode_path_to_1pk_def)
    next
      case True
      from fwd mod nm k k' True same obtain f where f: "get_feature a k (Some False) = Some f"
        by (auto simp: diff_delta_def call_decode_path_to_1pk_def call_get_feature_def
            split: option.splits)
      from fwd mod nm k k' True same f obtain g where g: "get_feature b k' (Some False) = Some g"
        by (auto simp: diff_delta_def call_decode_path_to_1pk_def call_get_feature_def
            split: option.splits)
      have c1': "c1' = c1\<lparr>candidates_upd :=
                   AList.update (py_str k) (f, g) (candidates_upd c1)\<rparr>"
        using fwd mod nm k k' True f g same
        by (simp add: diff_delta_def call_decode_path_to_1pk_def call_get_feature_def)
      have rev: "diff_delta py_str (Some b) (Some a) (Some a) pk_filter (swap_delta d) c2
                   = Inr (c2\<lparr>candidates_upd :=
                            AList.update (py_str k) (g, f) (candidates_upd c2)\<rparr>)"
        using mod nm k k' True f g same eq
        by (simp add: diff_delta_def swap_delta_def call_decode_path_to_1pk_def
            call_get_feature_def)
      show ?thesis unfolding rev using m c1'
        by (simp add: mirrored_def update_flip_updates)
    qed
  qed
qed

lemma mirrored_loop:
  assumes ok: "\<forall>d \<in> set ds. supported_status (status d) \<and> old_file_path d = new_file_path d"
    and agree: "\<forall>d \<in> set ds. status d = GIT_DELTA_MODIFIED \<longrightarrow> feature_delta d \<longrightarrow>
                  (\<forall>k k'. decode_path_to_1pk a (old_file_path d) = Inr k \<longrightarrow>
                     decode_path_to_1pk b (old_file_path d) = Inr k' \<longrightarrow> py_str k = py_str k')"
    and m: "mirrored c1 c2"
    and fwd: "diff_deltas py_str (Some a) (Some b) (Some b) pk_filter ds c1 = Inr c1'"
  shows "\<exists>c2'. diff_deltas py_str (Some b) (Some a) (Some a) pk_filter (map swap_delta ds) c2 = Inr c2'
                \<and> mirrored c1' c2'"
  using assms
proof (induction ds arbitrary: c1 c2)
  case Nil
  then show ?case by simp
next
  case (Cons d ds)
  from Cons.prems(4) obtain c1m where
    s1: "diff_delta py_str (Some a) (Some b) (Some b) pk_filter d c1 = Inr c1m"
    and r1: "diff_deltas py_str (Some a) (Some b) (Some b) pk_filter ds c1m = Inr c1'"
    by (auto split: sum.splits)
  have okd: "supported_status (status d)" "old_file_path d = new_file_path d"
    using Cons.prems(1) by simp_all
  have agd: "\<And>k k'. status d = GIT_DELTA_MODIFIED \<Longrightarrow> feature_delta d \<Longrightarrow>
                  decode_path_to_1pk a (old_file_path d) = Inr k \<Longrightarrow>
                  decode_path_to_1pk b (old_file_path d) = Inr k' \<Longrightarrow> py_str k = py_str k'"
    using Cons.prems(2) by simp
  from mirrored_step[OF okd agd Cons.prems(3) s1]
  obtain c2m where
    s2: "diff_delta py_str (Some b) (Some a) (Some a) pk_filter (swap_delta d) c2 = Inr c2m"
    and mm: "mirrored c1m c2m"
    by blast
  have ok': "\<forall>d \<in> set ds. supported_status (status d) \<and> old_file_path d = new_file_path d"
    using Cons.prems(1) by simp
  have agree': "\<forall>d \<in> set ds. status d = GIT_DELTA_MODIFIED \<longrightarrow> feature_delta d \<longrightarrow>
                  (\<forall>k k'. decode_path_to_1pk a (old_file_path d) = Inr k \<longrightarrow>
                     decode_path_to_1pk b (old_file_path d) = Inr k' \<longrightarrow> py_str k = py_str k')"
    using Cons.prems(2) by simp
  from Cons.IH[OF ok' agree' mm r1]
  obtain c2' where
    "diff_deltas py_str (Some b) (Some a) (Some a) pk_filter (map swap_delta ds) c2m = Inr c2'"
    "mirrored c1' c2'"
    by blast
  then show ?case using s2 by simp
qed


subsection \<open>Buckets of one element\<close>

lemma update_fresh: "k \<notin> fst ` set al \<Longrightarrow> AList.update k v al = al @ [(k, v)]"
  by (induction al) auto

lemma map_of_fresh: "k \<notin> fst ` set al \<Longrightarrow> map_of al k = None"
  by (induction al) auto

lemma defaultdict_append_box_del:
  "k \<notin> fst ` set dl \<Longrightarrow>
     defaultdict_append k (k, f) (box_del dl) = box_del (dl @ [(k, f)])"
proof -
  assume k: "k \<notin> fst ` set dl"
  have "fst ` set (box_del dl) = fst ` set dl"
    by (force simp: box_del_def)
  then have k': "k \<notin> fst ` set (box_del dl)" using k by simp
  show ?thesis
    by (simp add: defaultdict_append_def map_of_fresh[OF k'] update_fresh[OF k'])
       (simp add: box_del_def)
qed

lemma defaultdict_append_box_ins:
  "k \<notin> fst ` set il \<Longrightarrow> defaultdict_append k f (box_ins il) = box_ins (il @ [(k, f)])"
proof -
  assume k: "k \<notin> fst ` set il"
  have "fst ` set (box_ins il) = fst ` set il"
    by (force simp: box_ins_def)
  then have k': "k \<notin> fst ` set (box_ins il)" using k by simp
  show ?thesis
    by (simp add: defaultdict_append_def map_of_fresh[OF k'] update_fresh[OF k'])
       (simp add: box_ins_def)
qed

lemma diff_delta_del_effect:
  assumes "diff_delta py_str (Some a) new other pk_filter d c = Inr c1"
  shows "candidates_del c1 = candidates_del c
         \<or> (\<exists>k f. deleted_keys py_str a [d] = [k] \<and>
               candidates_del c1 = defaultdict_append k (k, f) (candidates_del c))"
  using assms
  by (auto simp: diff_delta_def deleted_keys_def feature_delta_def identity_def
      List.map_filter_simps call_decode_path_to_1pk_def call_get_feature_def
      split: if_splits sum.splits option.splits)

lemma diff_delta_ins_effect:
  assumes "diff_delta py_str old (Some b) other pk_filter d c = Inr c1"
  shows "candidates_ins c1 = candidates_ins c
         \<or> (\<exists>k f. added_keys py_str b [d] = [k] \<and>
               candidates_ins c1 = defaultdict_append k f (candidates_ins c))"
  using assms
  by (auto simp: diff_delta_def added_keys_def feature_delta_def identity_def
      List.map_filter_simps call_decode_path_to_1pk_def call_get_feature_def
      split: if_splits sum.splits option.splits)

lemma deleted_keys_Cons:
  "deleted_keys py_str a (d # ds) = deleted_keys py_str a [d] @ deleted_keys py_str a ds"
  by (simp add: deleted_keys_def List.map_filter_def)

lemma added_keys_Cons:
  "added_keys py_str b (d # ds) = added_keys py_str b [d] @ added_keys py_str b ds"
  by (simp add: added_keys_def List.map_filter_def)

lemma boxed_del_loop:
  assumes "diff_deltas py_str (Some a) new other pk_filter ds c = Inr c'"
    and "candidates_del c = box_del dl"
    and "distinct (map fst dl @ deleted_keys py_str a ds)"
  shows "\<exists>dl'. candidates_del c' = box_del dl' \<and> distinct (map fst dl')"
  using assms
proof (induction ds arbitrary: c dl)
  case Nil
  then show ?case by auto
next
  case (Cons d ds)
  from Cons.prems(1) obtain c1 where
    s1: "diff_delta py_str (Some a) new other pk_filter d c = Inr c1"
    and r1: "diff_deltas py_str (Some a) new other pk_filter ds c1 = Inr c'"
    by (auto split: sum.splits)
  have dist: "distinct (map fst dl @ deleted_keys py_str a [d] @ deleted_keys py_str a ds)"
    using Cons.prems(3) by (simp add: deleted_keys_Cons[of py_str a d ds])
  from diff_delta_del_effect[OF s1] show ?case
  proof
    assume same: "candidates_del c1 = candidates_del c"
    have "distinct (map fst dl @ deleted_keys py_str a ds)" using dist by auto
    from Cons.IH[OF r1 _ this] same Cons.prems(2) show ?thesis by simp
  next
    assume "\<exists>k f. deleted_keys py_str a [d] = [k] \<and>
               candidates_del c1 = defaultdict_append k (k, f) (candidates_del c)"
    then obtain k f where k: "deleted_keys py_str a [d] = [k]"
      and c1: "candidates_del c1 = defaultdict_append k (k, f) (candidates_del c)" by blast
    have fresh: "k \<notin> fst ` set dl" using dist k by auto
    have c1': "candidates_del c1 = box_del (dl @ [(k, f)])"
      using c1 Cons.prems(2) defaultdict_append_box_del[OF fresh] by simp
    have "distinct (map fst (dl @ [(k, f)]) @ deleted_keys py_str a ds)"
      using dist k by auto
    from Cons.IH[OF r1 c1' this] show ?thesis .
  qed
qed

lemma boxed_ins_loop:
  assumes "diff_deltas py_str old (Some b) other pk_filter ds c = Inr c'"
    and "candidates_ins c = box_ins il"
    and "distinct (map fst il @ added_keys py_str b ds)"
  shows "\<exists>il'. candidates_ins c' = box_ins il' \<and> distinct (map fst il')"
  using assms
proof (induction ds arbitrary: c il)
  case Nil
  then show ?case by auto
next
  case (Cons d ds)
  from Cons.prems(1) obtain c1 where
    s1: "diff_delta py_str old (Some b) other pk_filter d c = Inr c1"
    and r1: "diff_deltas py_str old (Some b) other pk_filter ds c1 = Inr c'"
    by (auto split: sum.splits)
  have dist: "distinct (map fst il @ added_keys py_str b [d] @ added_keys py_str b ds)"
    using Cons.prems(3) by (simp add: added_keys_Cons[of py_str b d ds])
  from diff_delta_ins_effect[OF s1] show ?case
  proof
    assume same: "candidates_ins c1 = candidates_ins c"
    have "distinct (map fst il @ added_keys py_str b ds)" using dist by auto
    from Cons.IH[OF r1 _ this] same Cons.prems(2) show ?thesis by simp
  next
    assume "\<exists>k f. added_keys py_str b [d] = [k] \<and>
               candidates_ins c1 = defaultdict_append k f (candidates_ins c)"
    then obtain k f where k: "added_keys py_str b [d] = [k]"
      and c1: "candidates_ins c1 = defaultdict_append k f (candidates_ins c)" by blast
    have fresh: "k \<notin> fst ` set il" using dist k by auto
    have c1': "candidates_ins c1 = box_ins (il @ [(k, f)])"
      using c1 Cons.prems(2) defaultdict_append_box_ins[OF fresh] by simp
    have "distinct (map fst (il @ [(k, f)]) @ added_keys py_str b ds)"
      using dist k by auto
    from Cons.IH[OF r1 c1' this] show ?thesis .
  qed
qed

subsection \<open>Identities of the deltas of a tree diff\<close>

lemma subseq_map_filter:
  "subseq xs ys \<Longrightarrow> subseq (List.map_filter f xs) (List.map_filter f ys)"
  by (simp add: List.map_filter_def subseq_map)

lemma distinct_subseq: "subseq xs ys \<Longrightarrow> distinct ys \<Longrightarrow> distinct xs"
  by (induction rule: list_emb.induct) (auto dest: list_emb_set)

lemma deleted_paths_feature:
  assumes "\<forall>d \<in> set ds. old_file_path d = new_file_path d"
  shows "map old_file_path (filter (\<lambda>d. feature_delta d \<and> status d = GIT_DELTA_DELETED) ds)
           = filter (\<lambda>p. \<not> meta_path p)
               (map old_file_path (filter (\<lambda>d. status d = GIT_DELTA_DELETED) ds))"
  using assms by (induction ds) (auto simp: feature_delta_def)

lemma added_paths_feature:
  assumes "\<forall>d \<in> set ds. old_file_path d = new_file_path d"
  shows "map new_file_path (filter (\<lambda>d. feature_delta d \<and> status d = GIT_DELTA_ADDED) ds)
           = filter (\<lambda>p. \<not> meta_path p)
               (map new_file_path (filter (\<lambda>d. status d = GIT_DELTA_ADDED) ds))"
  using assms by (induction ds) (auto simp: feature_delta_def)

lemma distinct_deleted_keys:
  assumes "injective_codec py_str a"
  shows "distinct (deleted_keys py_str a (diff_trees (tree a) t))"
proof -
  have same: "\<forall>d \<in> set (diff_trees (tree a) t). old_file_path d = new_file_path d"
    using diff_trees_supported by blast
  have "subseq (filter (\<lambda>p. \<not> meta_path p)
                  (map old_file_path (filter (\<lambda>d. status d = GIT_DELTA_DELETED)
                     (diff_trees (tree a) t))))
               (feature_paths a)"
    unfolding feature_paths_def by (rule subseq_filter) (rule diff_trees_deleted_subseq)
  then have "subseq (deleted_keys py_str a (diff_trees (tree a) t))
                    (List.map_filter (identity py_str a) (feature_paths a))"
    unfolding deleted_keys_def deleted_paths_feature[OF same] by (rule subseq_map_filter)
  then show ?thesis using assms unfolding injective_codec_def by (rule distinct_subseq)
qed

lemma distinct_added_keys:
  assumes "injective_codec py_str b"
  shows "distinct (added_keys py_str b (diff_trees t (tree b)))"
proof -
  have same: "\<forall>d \<in> set (diff_trees t (tree b)). old_file_path d = new_file_path d"
    using diff_trees_supported by blast
  have "subseq (filter (\<lambda>p. \<not> meta_path p)
                  (map new_file_path (filter (\<lambda>d. status d = GIT_DELTA_ADDED)
                     (diff_trees t (tree b)))))
               (feature_paths b)"
    unfolding feature_paths_def by (rule subseq_filter) (rule diff_trees_added_subseq)
  then have "subseq (added_keys py_str b (diff_trees t (tree b)))
                    (List.map_filter (identity py_str b) (feature_paths b))"
    unfolding added_keys_def added_paths_feature[OF same] by (rule subseq_map_filter)
  then show ?thesis using assms unfolding injective_codec_def by (rule distinct_subseq)
qed


subsection \<open>Rename detection on buckets of one element\<close>

lemma map_of_box_ins: "map_of (box_ins il) h = map_option (\<lambda>g. [g]) (map_of il h)"
  by (induction il) (auto simp: box_ins_def)

lemma map_of_box_del: "map_of (box_del dl) h = map_option (\<lambda>f. [(h, f)]) (map_of dl h)"
  by (induction dl) (auto simp: box_del_def)

lemma delete_box_ins: "AList.delete h (box_ins il) = box_ins (filter (\<lambda>(k, _). k \<noteq> h) il)"
  by (induction il) (auto simp: box_ins_def)

lemma delete_box_del: "AList.delete h (box_del dl) = box_del (filter (\<lambda>(k, _). k \<noteq> h) dl)"
  by (induction dl) (auto simp: box_del_def)

lemma map_of_filter_other:
  "h' \<noteq> h \<Longrightarrow> map_of (filter (\<lambda>(k, _). k \<noteq> h) al) h' = map_of al h'"
  by (induction al) auto

lemma keys_filter_other:
  "fst ` set (filter (\<lambda>(k, _). k \<noteq> h) al) = fst ` set al - {h}"
  by (induction al) auto

lemma detect_renames_boxed:
  assumes "distinct hs" and "set hs \<subseteq> fst ` set dl"
  shows "\<exists>u'. detect_renames hs
                \<lparr>candidates_ins = box_ins il, candidates_upd = u, candidates_del = box_del dl\<rparr>
              = Inr \<lparr>candidates_ins = box_ins (filter (\<lambda>(k, _). k \<notin> set hs) il),
                     candidates_upd = u',
                     candidates_del =
                       box_del (filter (\<lambda>(k, _). k \<notin> set hs \<or> k \<notin> fst ` set il) dl)\<rparr>
            \<and> (\<forall>k. map_of u' k =
                   (if k \<in> set hs \<and> k \<in> fst ` set il
                    then Some (the (map_of dl k), the (map_of il k))
                    else map_of u k))
            \<and> fst ` set u' = fst ` set u \<union> (set hs \<inter> fst ` set il)"
  using assms
proof (induction hs arbitrary: dl il u)
  case Nil
  show ?case by simp
next
  case (Cons h hs)
  have dhs: "distinct hs" and hn: "h \<notin> set hs" using Cons.prems(1) by simp_all
  show ?case
  proof (cases "map_of il h")
    case None
    then have hil: "h \<notin> fst ` set il" by (simp add: map_of_eq_None_iff)
    have sub: "set hs \<subseteq> fst ` set dl" using Cons.prems(2) by simp
    from Cons.IH[OF dhs sub, of il u] obtain u' where
      run: "detect_renames hs
              \<lparr>candidates_ins = box_ins il, candidates_upd = u, candidates_del = box_del dl\<rparr>
            = Inr \<lparr>candidates_ins = box_ins (filter (\<lambda>(k, _). k \<notin> set hs) il),
                   candidates_upd = u',
                   candidates_del =
                     box_del (filter (\<lambda>(k, _). k \<notin> set hs \<or> k \<notin> fst ` set il) dl)\<rparr>"
      and mp: "\<forall>k. map_of u' k =
                   (if k \<in> set hs \<and> k \<in> fst ` set il
                    then Some (the (map_of dl k), the (map_of il k))
                    else map_of u k)"
      and ks: "fst ` set u' = fst ` set u \<union> (set hs \<inter> fst ` set il)"
      by blast
    have f1: "filter (\<lambda>(k, _). k \<notin> set (h # hs)) il = filter (\<lambda>(k, _). k \<notin> set hs) il"
      using hil by (intro filter_cong) force+
    have f2: "filter (\<lambda>(k, _). k \<notin> set (h # hs) \<or> k \<notin> fst ` set il) dl
                = filter (\<lambda>(k, _). k \<notin> set hs \<or> k \<notin> fst ` set il) dl"
      using hil by (intro filter_cong) auto
    have step: "detect_renames (h # hs)
              \<lparr>candidates_ins = box_ins il, candidates_upd = u, candidates_del = box_del dl\<rparr>
         = detect_renames hs
              \<lparr>candidates_ins = box_ins il, candidates_upd = u, candidates_del = box_del dl\<rparr>"
      using None by (simp add: map_of_box_ins)
    show ?thesis
      unfolding step f1 f2 using run mp ks hil by auto
  next
    case (Some g)
    then have hil: "h \<in> fst ` set il" by (force dest: map_of_SomeD)
    have "h \<in> fst ` set dl" using Cons.prems(2) by simp
    then obtain f where f: "map_of dl h = Some f"
      by (cases "map_of dl h") (auto simp: map_of_eq_None_iff)
    let ?il = "filter (\<lambda>(k, _). k \<noteq> h) il"
    let ?dl = "filter (\<lambda>(k, _). k \<noteq> h) dl"
    let ?u = "AList.update h (f, g) u"
    have step: "detect_renames (h # hs)
              \<lparr>candidates_ins = box_ins il, candidates_upd = u, candidates_del = box_del dl\<rparr>
         = detect_renames hs
              \<lparr>candidates_ins = box_ins ?il, candidates_upd = ?u, candidates_del = box_del ?dl\<rparr>"
      using Some f
      by (simp add: map_of_box_ins map_of_box_del pop_bucket_def delete_box_ins delete_box_del)
    have sub: "set hs \<subseteq> fst ` set ?dl"
      using Cons.prems(2) hn unfolding keys_filter_other by auto
    from Cons.IH[OF dhs sub, of ?il ?u] obtain u' where
      run: "detect_renames hs
              \<lparr>candidates_ins = box_ins ?il, candidates_upd = ?u, candidates_del = box_del ?dl\<rparr>
            = Inr \<lparr>candidates_ins = box_ins (filter (\<lambda>(k, _). k \<notin> set hs) ?il),
                   candidates_upd = u',
                   candidates_del =
                     box_del (filter (\<lambda>(k, _). k \<notin> set hs \<or> k \<notin> fst ` set ?il) ?dl)\<rparr>"
      and mp: "\<forall>k. map_of u' k =
                   (if k \<in> set hs \<and> k \<in> fst ` set ?il
                    then Some (the (map_of ?dl k), the (map_of ?il k))
                    else map_of ?u k)"
      and ks: "fst ` set u' = fst ` set ?u \<union> (set hs \<inter> fst ` set ?il)"
      by blast
    have f1: "filter (\<lambda>(k, _). k \<notin> set hs) ?il = filter (\<lambda>(k, _). k \<notin> set (h # hs)) il"
      unfolding filter_filter by (intro filter_cong) auto
    have f2: "filter (\<lambda>(k, _). k \<notin> set hs \<or> k \<notin> fst ` set ?il) ?dl
                = filter (\<lambda>(k, _). k \<notin> set (h # hs) \<or> k \<notin> fst ` set il) dl"
      unfolding filter_filter keys_filter_other using hil
      by (intro filter_cong) auto
    have mp': "\<forall>k. map_of u' k =
                   (if k \<in> set (h # hs) \<and> k \<in> fst ` set il
                    then Some (the (map_of dl k), the (map_of il k))
                    else map_of u k)"
    proof
      fix k
      show "map_of u' k =
                   (if k \<in> set (h # hs) \<and> k \<in> fst ` set il
                    then Some (the (map_of dl k), the (map_of il k))
                    else map_of u k)"
      proof (cases "k = h")
        case True
        then show ?thesis using mp[rule_format, of k] hn hil f Some by (simp add: update_conv')
      next
        case False
        then show ?thesis using mp[rule_format, of k] unfolding keys_filter_other
          by (simp add: map_of_filter_other update_conv')
      qed
    qed
    have ks': "fst ` set u' = fst ` set u \<union> (set (h # hs) \<inter> fst ` set il)"
      using ks hil hn unfolding keys_filter_other dom_update by auto
    show ?thesis
      unfolding step using run mp' ks' unfolding f1 f2 by blast
  qed
qed


subsection \<open>The inverse law\<close>

lemma tag_buckets_box_ins: "tag_buckets (box_ins il) = box_del il"
  by (induction il) (auto simp: tag_buckets_def box_ins_def box_del_def)

lemma tag_buckets_eq_box_del: "tag_buckets x = box_del dl \<Longrightarrow> x = box_ins dl"
proof (induction x arbitrary: dl)
  case Nil
  then show ?case by (simp add: tag_buckets_def box_del_def box_ins_def)
next
  case (Cons e x)
  obtain k fs where e: "e = (k, fs)" by (cases e)
  from Cons.prems e obtain k' f dl' where dl: "dl = (k', f) # dl'"
    by (cases dl) (auto simp: tag_buckets_def box_del_def)
  from Cons.prems e dl have "k = k'" "map (Pair k) fs = [(k', f)]" "tag_buckets x = box_del dl'"
    by (auto simp: tag_buckets_def box_del_def)
  moreover from this have "fs = [f]" by (cases fs) auto
  ultimately show ?case using Cons.IH[of dl'] e dl by (simp add: box_ins_def)
qed

lemma keys_box_ins: "map fst (box_ins al) = map fst al"
  by (induction al) (auto simp: box_ins_def)

lemma keys_box_del: "map fst (box_del al) = map fst al"
  by (induction al) (auto simp: box_del_def)

lemma concat_box_ins: "concat (map snd (box_ins al)) = map snd al"
  by (induction al) (auto simp: box_ins_def)

lemma concat_box_del: "concat (map snd (box_del al)) = al"
  by (induction al) (auto simp: box_del_def)

lemma foldl_update_distinct:
  "distinct (map fst (acc @ xs)) \<Longrightarrow>
     foldl (\<lambda>d (k, v). AList.update k v d) acc xs = acc @ xs"
proof (induction xs arbitrary: acc)
  case Nil
  show ?case by simp
next
  case (Cons x xs)
  obtain k v where x: "x = (k, v)" by (cases x)
  have fresh: "k \<notin> fst ` set acc" using Cons.prems x by auto
  have "distinct (map fst ((acc @ [(k, v)]) @ xs))" using Cons.prems x by simp
  from Cons.IH[OF this] show ?case using x by (simp add: update_fresh[OF fresh])
qed

lemma dict_of_distinct: "distinct (map fst xs) \<Longrightarrow> dict_of xs = xs"
  using foldl_update_distinct[of "[]" xs] by (simp add: dict_of_def)

lemma map_of_flip_updates:
  "map_of (flip_updates al) k = map_option prod.swap (map_of al k)"
  by (induction al) (auto simp: flip_updates_def)

lemma keys_flip_updates: "fst ` set (flip_updates al) = fst ` set al"
  by (force simp: flip_updates_def)

lemma distinct_filter_keys: "distinct (map fst al) \<Longrightarrow> distinct (map fst (filter P al))"
  by (simp add: distinct_map_filter)

lemma identity_Inr: "decode_path_to_1pk ds p = Inr k \<Longrightarrow> identity py_str ds p = Some (py_str k)"
  by (simp add: identity_def)

text \<open>
  C2. Let \<open>a\<close> and \<open>b\<close> be two snapshots of a dataset, in each of which no two feature
  paths have the same identity, and which give a path they share the same identity. For
  every key filter, when \<open>diff\<close> from \<open>a\<close> to \<open>b\<close> returns a diff, \<open>diff\<close> from \<open>b\<close> to
  \<open>a\<close> returns one too, and the two contain the same identities: the identities inserted
  by one are those deleted by the other, each insert of one is the delete of the other
  with the same content, the identities updated are the same, and each update has its old
  and new value exchanged.
\<close>

theorem diff_inverse_law:
  assumes inj_a: "injective_codec py_str a" and inj_b: "injective_codec py_str b"
    and agree: "codecs_agree py_str a b"
    and fwd: "diff py_str a (Some b) pk_filter False = Inr r1"
  shows "\<exists>c1 c2 r2.
           diff_candidates py_str a (Some b) pk_filter False = Inr c1 \<and> r1 = make_diff c1 \<and>
           diff_candidates py_str b (Some a) pk_filter False = Inr c2 \<and> r2 = make_diff c2 \<and>
           diff py_str b (Some a) pk_filter False = Inr r2 \<and>
           map fst (candidates_ins c2) = map fst (candidates_del c1) \<and>
           map fst (candidates_del c2) = map fst (candidates_ins c1) \<and>
           fst ` set (candidates_upd c2) = fst ` set (candidates_upd c1) \<and>
           map fst (D r1) = map fst (candidates_del c1) \<and>
           map fst (D r2) = map fst (candidates_del c2) \<and>
           I r2 = map snd (D r1) \<and> map snd (D r2) = I r1 \<and>
           (\<forall>k. map_of (U r2) k = map_option prod.swap (map_of (U r1) k))"
proof -
  let ?c0 = "\<lparr>candidates_ins = [], candidates_upd = [], candidates_del = []\<rparr> :: 'a candidates"
  let ?ds = "diff_trees (tree a) (tree b)"
  have ix1: "diff_index_of a (Some b) False = ?ds"
    by (simp add: diff_index_of_def diff_to_tree_def)
  have ix2: "diff_index_of b (Some a) False = map swap_delta ?ds"
    by (simp add: diff_index_of_def diff_to_tree_def diff_trees_swap[of "tree b" "tree a"])
  from fwd obtain c1 where
    st1: "diff_staged py_str (Some a) (Some b) (Some b) pk_filter ?ds = Inr c1"
    and r1: "r1 = make_diff c1"
    by (auto simp: diff_def diff_of_deltas_def ix1 split: sum.splits)
  from st1 obtain l1 where
    loop1: "diff_deltas py_str (Some a) (Some b) (Some b) pk_filter ?ds ?c0 = Inr l1"
    and det1: "detect_renames (map fst (candidates_del l1)) l1 = Inr c1"
    by (auto simp: diff_staged_def split: sum.splits)
  have ok: "\<forall>d \<in> set ?ds. supported_status (status d) \<and> old_file_path d = new_file_path d"
    using diff_trees_supported by blast
  have ag: "\<forall>d \<in> set ?ds. status d = GIT_DELTA_MODIFIED \<longrightarrow> feature_delta d \<longrightarrow>
                  (\<forall>k k'. decode_path_to_1pk a (old_file_path d) = Inr k \<longrightarrow>
                     decode_path_to_1pk b (old_file_path d) = Inr k' \<longrightarrow> py_str k = py_str k')"
  proof (intro ballI impI allI)
    fix d k k'
    assume d: "d \<in> set ?ds" and m: "status d = GIT_DELTA_MODIFIED" and f: "feature_delta d"
      and k: "decode_path_to_1pk a (old_file_path d) = Inr k"
      and k': "decode_path_to_1pk b (old_file_path d) = Inr k'"
    from diff_trees_modified[OF d m] f
    have "old_file_path d \<in> set (feature_paths a)" "old_file_path d \<in> set (feature_paths b)"
      by (auto simp: feature_paths_def feature_delta_def)
    with agree identity_Inr[OF k, of py_str] identity_Inr[OF k', of py_str]
    show "py_str k = py_str k'"
      by (auto simp: codecs_agree_def list_all_iff)
  qed
  have m0: "mirrored ?c0 ?c0" by (simp add: mirrored_def tag_buckets_def flip_updates_def)
  from mirrored_loop[OF ok ag m0 loop1] obtain l2 where
    loop2: "diff_deltas py_str (Some b) (Some a) (Some a) pk_filter (map swap_delta ?ds) ?c0 = Inr l2"
    and mir: "mirrored l1 l2"
    by blast
  from boxed_del_loop[OF loop1, of "[]"] distinct_deleted_keys[OF inj_a, of "tree b"]
  obtain dl where dl: "candidates_del l1 = box_del dl" and ddl: "distinct (map fst dl)"
    by (auto simp: box_del_def)
  from boxed_ins_loop[OF loop1, of "[]"] distinct_added_keys[OF inj_b, of "tree a"]
  obtain il where il: "candidates_ins l1 = box_ins il" and dil: "distinct (map fst il)"
    by (auto simp: box_ins_def)
  have l1: "l1 = \<lparr>candidates_ins = box_ins il, candidates_upd = candidates_upd l1,
                  candidates_del = box_del dl\<rparr>"
    using dl il by simp
  have del2: "candidates_del l2 = box_del il"
    using mir il by (simp add: mirrored_def tag_buckets_box_ins)
  have ins2: "candidates_ins l2 = box_ins dl"
    using mir dl by (auto simp: mirrored_def intro: tag_buckets_eq_box_del)
  have upd2: "candidates_upd l2 = flip_updates (candidates_upd l1)"
    using mir by (simp add: mirrored_def)
  have l2: "l2 = \<lparr>candidates_ins = box_ins dl, candidates_upd = flip_updates (candidates_upd l1),
                  candidates_del = box_del il\<rparr>"
    using del2 ins2 upd2 by simp
  let ?D = "filter (\<lambda>(k, _). k \<notin> fst ` set il) dl"
  let ?I = "filter (\<lambda>(k, _). k \<notin> fst ` set dl) il"
  have fd: "filter (\<lambda>(k, _). k \<notin> set (map fst dl) \<or> k \<notin> fst ` set il) dl = ?D"
    by (intro filter_cong) force+
  have fi: "filter (\<lambda>(k, _). k \<notin> set (map fst il) \<or> k \<notin> fst ` set dl) il = ?I"
    by (intro filter_cong) force+
  have fd': "filter (\<lambda>(k, _). k \<notin> set (map fst il)) dl = ?D" by simp
  have fi': "filter (\<lambda>(k, _). k \<notin> set (map fst dl)) il = ?I" by simp
  from detect_renames_boxed[of "map fst dl" dl il "candidates_upd l1"] ddl
  obtain u1 where
    run1: "detect_renames (map fst dl)
             \<lparr>candidates_ins = box_ins il, candidates_upd = candidates_upd l1,
              candidates_del = box_del dl\<rparr>
           = Inr \<lparr>candidates_ins = box_ins ?I, candidates_upd = u1, candidates_del = box_del ?D\<rparr>"
    and mp1: "\<forall>k. map_of u1 k =
                   (if k \<in> set (map fst dl) \<and> k \<in> fst ` set il
                    then Some (the (map_of dl k), the (map_of il k))
                    else map_of (candidates_upd l1) k)"
    and ks1: "fst ` set u1 = fst ` set (candidates_upd l1) \<union> (set (map fst dl) \<inter> fst ` set il)"
    unfolding fd fi' by auto
  from detect_renames_boxed[of "map fst il" il dl "flip_updates (candidates_upd l1)"] dil
  obtain u2 where
    run2: "detect_renames (map fst il)
             \<lparr>candidates_ins = box_ins dl, candidates_upd = flip_updates (candidates_upd l1),
              candidates_del = box_del il\<rparr>
           = Inr \<lparr>candidates_ins = box_ins ?D, candidates_upd = u2, candidates_del = box_del ?I\<rparr>"
    and mp2: "\<forall>k. map_of u2 k =
                   (if k \<in> set (map fst il) \<and> k \<in> fst ` set dl
                    then Some (the (map_of il k), the (map_of dl k))
                    else map_of (flip_updates (candidates_upd l1)) k)"
    and ks2: "fst ` set u2 = fst ` set (flip_updates (candidates_upd l1))
                \<union> (set (map fst il) \<inter> fst ` set dl)"
    unfolding fi fd' by auto
  have c1: "c1 = \<lparr>candidates_ins = box_ins ?I, candidates_upd = u1, candidates_del = box_del ?D\<rparr>"
    using det1 run1 l1 by (simp add: dl keys_box_del)
  let ?c2 = "\<lparr>candidates_ins = box_ins ?D, candidates_upd = u2, candidates_del = box_del ?I\<rparr>"
  have det2: "detect_renames (map fst (candidates_del l2)) l2 = Inr ?c2"
    using run2 l2 by (simp add: del2 keys_box_del)
  have st2: "diff_staged py_str (Some b) (Some a) (Some a) pk_filter (map swap_delta ?ds) = Inr ?c2"
    using loop2 det2 by (simp add: diff_staged_def)
  have dc1: "diff_candidates py_str a (Some b) pk_filter False = Inr c1"
    using st1 by (simp add: diff_candidates_def ix1)
  have dc2: "diff_candidates py_str b (Some a) pk_filter False = Inr ?c2"
    using st2 by (simp add: diff_candidates_def ix2)
  have d2: "diff py_str b (Some a) pk_filter False = Inr (make_diff ?c2)"
    using st2 by (simp add: diff_def diff_of_deltas_def ix2)
  have dD: "distinct (map fst ?D)" and dI: "distinct (map fst ?I)"
    using ddl dil by (simp_all add: distinct_filter_keys)
  have D1: "D (make_diff c1) = ?D"
    by (simp add: make_diff_def c1 concat_box_del dict_of_distinct[OF dD])
  have D2: "D (make_diff ?c2) = ?I"
    by (simp add: make_diff_def concat_box_del dict_of_distinct[OF dI])
  have I1: "I (make_diff c1) = map snd ?I"
    by (simp add: make_diff_def c1 concat_box_ins)
  have I2: "I (make_diff ?c2) = map snd ?D"
    by (simp add: make_diff_def concat_box_ins)
  have U: "\<forall>k. map_of (U (make_diff ?c2)) k = map_option prod.swap (map_of (U (make_diff c1)) k)"
    using mp1 mp2 by (auto simp: make_diff_def c1 map_of_flip_updates)
  have K: "fst ` set (candidates_upd ?c2) = fst ` set (candidates_upd c1)"
    using ks1 ks2 by (auto simp: c1 keys_flip_updates)
  show ?thesis
    apply (rule exI[of _ c1], rule exI[of _ ?c2], rule exI[of _ "make_diff ?c2"])
    using dc1 r1 dc2 d2 K U
    unfolding r1 D1 D2 I1 I2
    by (simp add: c1 keys_box_ins keys_box_del)
qed

lemma snapshot_facts:
  "tree snapshot_a = [(''.sno-table/1'', ''a1''), (''.sno-table/2'', ''a2''), (''.sno-table/meta/schema'', ''m1'')]"
  "tree snapshot_b = [(''.sno-table/2'', ''b2''), (''.sno-table/3'', ''b3''), (''.sno-table/meta/schema'', ''m2'')]"
  "decode_path_to_1pk snapshot_a ''.sno-table/1'' = Inr ''1''"
  "decode_path_to_1pk snapshot_a ''.sno-table/2'' = Inr ''2''"
  "decode_path_to_1pk snapshot_a ''.sno-table/3'' = Inr ''3''"
  "decode_path_to_1pk snapshot_b ''.sno-table/1'' = Inr ''1''"
  "decode_path_to_1pk snapshot_b ''.sno-table/2'' = Inr ''2''"
  "decode_path_to_1pk snapshot_b ''.sno-table/3'' = Inr ''3''"
  "get_feature snapshot_a ''1'' (Some False) = Some row1"
  "get_feature snapshot_a ''2'' (Some False) = Some row2"
  "get_feature snapshot_b ''2'' (Some False) = Some row2'"
  "get_feature snapshot_b ''3'' (Some False) = Some row3"
  by (simp_all add: snapshot_a_def snapshot_b_def points_ds_def)

lemma snapshot_index:
  "diff_index_of snapshot_a (Some snapshot_b) False =
     [\<lparr>status = GIT_DELTA_DELETED, old_file_path = ''.sno-table/1'', new_file_path = ''.sno-table/1''\<rparr>,
      \<lparr>status = GIT_DELTA_MODIFIED, old_file_path = ''.sno-table/2'', new_file_path = ''.sno-table/2''\<rparr>,
      \<lparr>status = GIT_DELTA_ADDED, old_file_path = ''.sno-table/3'', new_file_path = ''.sno-table/3''\<rparr>,
      \<lparr>status = GIT_DELTA_MODIFIED, old_file_path = ''.sno-table/meta/schema'', new_file_path = ''.sno-table/meta/schema''\<rparr>]"
  by (simp add: diff_index_of_def diff_to_tree_def snapshot_facts)

lemma snapshot_diff:
  "diff (\<lambda>s. s) snapshot_a (Some snapshot_b) UNIV False
     = Inr \<lparr>META = [], I = [row3], D = [(''1'', row1)], U = [(''2'', (row2, row2'))]\<rparr>"
  by (simp add: diff_def snapshot_index snapshot_facts diff_of_deltas_def diff_staged_def diff_delta_def meta_path_def
      call_decode_path_to_1pk_def call_get_feature_def defaultdict_append_def
      make_diff_def dict_of_def)

lemma snapshot_wf:
  "injective_codec (\<lambda>s. s) snapshot_a" "injective_codec (\<lambda>s. s) snapshot_b"
  "codecs_agree (\<lambda>s. s) snapshot_a snapshot_b"
  by (simp_all add: injective_codec_def codecs_agree_def feature_paths_def snapshot_facts meta_path_def
      List.map_filter_simps identity_def)


lemma snapshot_index_back:
  "diff_index_of snapshot_b (Some snapshot_a) False =
     [\<lparr>status = GIT_DELTA_ADDED, old_file_path = ''.sno-table/1'', new_file_path = ''.sno-table/1''\<rparr>,
      \<lparr>status = GIT_DELTA_MODIFIED, old_file_path = ''.sno-table/2'', new_file_path = ''.sno-table/2''\<rparr>,
      \<lparr>status = GIT_DELTA_DELETED, old_file_path = ''.sno-table/3'', new_file_path = ''.sno-table/3''\<rparr>,
      \<lparr>status = GIT_DELTA_MODIFIED, old_file_path = ''.sno-table/meta/schema'', new_file_path = ''.sno-table/meta/schema''\<rparr>]"
  by (simp add: diff_index_of_def diff_to_tree_def snapshot_facts)

lemma snapshot_diff_back:
  "diff (\<lambda>s. s) snapshot_b (Some snapshot_a) UNIV False
     = Inr \<lparr>META = [], I = [row1], D = [(''3'', row3)], U = [(''2'', (row2', row2))]\<rparr>"
  by (simp add: diff_def snapshot_index_back snapshot_facts diff_of_deltas_def diff_staged_def diff_delta_def meta_path_def
      call_decode_path_to_1pk_def call_get_feature_def defaultdict_append_def
      make_diff_def dict_of_def)

theorem diff_inverse_law_witness:
  "injective_codec (\<lambda>s. s) snapshot_a \<and> injective_codec (\<lambda>s. s) snapshot_b \<and>
   codecs_agree (\<lambda>s. s) snapshot_a snapshot_b \<and>
   diff (\<lambda>s. s) snapshot_a (Some snapshot_b) UNIV False
     = Inr \<lparr>META = [], I = [row3], D = [(''1'', row1)], U = [(''2'', (row2, row2'))]\<rparr> \<and>
   diff (\<lambda>s. s) snapshot_b (Some snapshot_a) UNIV False
     = Inr \<lparr>META = [], I = [row1], D = [(''3'', row3)], U = [(''2'', (row2', row2))]\<rparr>"
proof -
  from diff_inverse_law[OF snapshot_wf snapshot_diff]
  obtain r2 where bk: "diff (\<lambda>s. s) snapshot_b (Some snapshot_a) UNIV False = Inr r2"
    and r2i: "I r2 = map snd [(''1'', row1)]" and r2d: "map snd (D r2) = [row3]"
    by auto
  from bk snapshot_diff_back have "r2 = \<lparr>META = [], I = [row1], D = [(''3'', row3)], U = [(''2'', (row2', row2))]\<rparr>"
    by simp
  with bk r2i r2d snapshot_wf snapshot_diff show ?thesis by simp
qed

section \<open>Properties of prune\<close>

lemma deltas_empty: "is_empty v \<Longrightarrow> all_deltas v = []"
  by (cases v) auto

lemma prune_pruned_id: "pruned d \<Longrightarrow> prune d = d"
proof (induction d)
  case (Delta x) show ?case by simp
next
  case (RichDict items)
  have "map (map_prod id prune) items = items"
  proof (rule map_idI)
    fix kv assume kv: "kv \<in> set items"
    obtain k v where e: "kv = (k, v)" by (cases kv)
    from RichDict.prems kv e have "pruned v" by (auto simp: list_all_iff)
    with RichDict.IH[of kv v] kv e show "map_prod id prune kv = kv" by simp
  qed
  moreover have "filter (\<lambda>(key, v). \<not> is_empty v) items = items"
    using RichDict.prems by (auto simp: list_all_iff intro!: filter_True)
  ultimately show ?case by simp
qed

lemma pruned_prune: "pruned (prune d)"
proof (induction d)
  case (Delta x) show ?case by simp
next
  case (RichDict items)
  then show ?case by (auto simp: list_all_iff)
qed

lemma deltas_prune: "all_deltas (prune d) = all_deltas d"
proof (induction d)
  case (Delta x) show ?case by simp
next
  case (RichDict items)
  have f: "concat (map snd (map (map_prod id all_deltas) (filter (\<lambda>(key, v). \<not> is_empty v) xs)))
          = concat (map snd (map (map_prod id all_deltas) xs))" for xs :: "(string \<times> 'a diff_node) list"
    by (induction xs) (auto simp: deltas_empty)
  have m: "map snd (map (map_prod id all_deltas) (map (map_prod id prune) items))
                   = map snd (map (map_prod id all_deltas) items)"
    using RichDict.IH by (auto simp: o_def)
  have "all_deltas (prune (RichDict items))
          = concat (map snd (map (map_prod id all_deltas)
              (filter (\<lambda>(key, v). \<not> is_empty v) (map (map_prod id prune) items))))"
    by simp
  also have "\<dots> = concat (map snd (map (map_prod id all_deltas) (map (map_prod id prune) items)))"
    by (rule f)
  also have "\<dots> = concat (map snd (map (map_prod id all_deltas) items))"
    by (simp only: m)
  also have "\<dots> = all_deltas (RichDict items)" by simp
  finally show ?case .
qed

lemma get_dataset_diff_pruned:
  assumes "get_dataset_diff env base_rs target_rs working_copy dataset_path ds_filter = Inr d"
  shows "pruned d"
proof -
  from assms obtain d2 where "d = prune d2"
    by (auto simp: get_dataset_diff_def split: sum.splits)
  then show ?thesis by (simp only: pruned_prune)
qed

lemma get_repo_diff_pruned:
  assumes "get_repo_diff env base_rs target_rs feature_filter = Inr d"
  shows "pruned d"
proof -
  from assms obtain result where "d = prune (RichDict result)"
    by (auto simp add: get_repo_diff_def simp del: prune.simps split: sum.splits)
  then show ?thesis by (simp only: pruned_prune)
qed

text \<open>
  C8. \<open>prune\<close> is idempotent, it removes no Delta, and after it no nested container is
  empty; the diffs that \<open>get_dataset_diff\<close> and \<open>get_repo_diff\<close> return have been pruned
  last, so they contain no empty container.
\<close>

theorem prune_idempotent:
  "prune (prune d) = prune d \<and> all_deltas (prune d) = all_deltas d \<and> pruned (prune d) \<and>
   (\<forall>r. get_dataset_diff env base_rs target_rs working_copy dataset_path ds_filter = Inr r
          \<longrightarrow> pruned r) \<and>
   (\<forall>r. get_repo_diff env base_rs target_rs feature_filter = Inr r \<longrightarrow> pruned r)"
proof (intro conjI allI impI)
  show "prune (prune d) = prune d" by (rule prune_pruned_id) (rule pruned_prune)
  show "all_deltas (prune d) = all_deltas d" by (rule deltas_prune)
  show "pruned (prune d)" by (rule pruned_prune)
  show "pruned r"
    if "get_dataset_diff env base_rs target_rs working_copy dataset_path ds_filter = Inr r" for r
    using that by (rule get_dataset_diff_pruned)
  show "pruned r" if "get_repo_diff env base_rs target_rs feature_filter = Inr r" for r
    using that by (rule get_repo_diff_pruned)
qed

lemma repo_diff_run:
  "get_repo_diff repo_env 1 2 Repo_UNFILTERED
     = Inr (RichDict [(''points'', RichDict [(''feature'', RichDict [(''3'', Delta ''+3'')])])])"
  by (simp add: get_repo_diff_def all_ds_paths_def repo_env_def filter_item_def
      get_dataset_diff_def commit_diff_def working_copy_diff_def)

lemma dataset_diff_run:
  "get_dataset_diff repo_env 1 2 (Some ()) ''roads'' () = Inr (RichDict [])"
  by (simp add: get_dataset_diff_def commit_diff_def working_copy_diff_def repo_env_def)

theorem prune_idempotent_witness:
  "prune unpruned = RichDict [(''points'', RichDict [(''feature'', RichDict [(''3'', Delta ''+3'')])])] \<and>
   prune (prune unpruned) = prune unpruned \<and> all_deltas (prune unpruned) = [''+3''] \<and>
   all_deltas unpruned = [''+3''] \<and> pruned (prune unpruned) \<and>
   get_dataset_diff repo_env 1 2 (Some ()) ''roads'' () = Inr (RichDict []) \<and>
   pruned (RichDict [] :: string diff_node) \<and>
   get_repo_diff repo_env 1 2 Repo_UNFILTERED
     = Inr (RichDict [(''points'', RichDict [(''feature'', RichDict [(''3'', Delta ''+3'')])])]) \<and>
   pruned (RichDict [(''points'', RichDict [(''feature'', RichDict [(''3'', Delta ''+3'')])])])"
proof -
  note inst = prune_idempotent[of unpruned repo_env 1 2 "Some ()" "''roads''" "()" Repo_UNFILTERED]
  have p: "prune unpruned = RichDict [(''points'', RichDict [(''feature'', RichDict [(''3'', Delta ''+3'')])])]"
    by (simp add: unpruned_def)
  have d: "all_deltas unpruned = [''+3'']" by (simp add: unpruned_def)
  from inst have "prune (prune unpruned) = prune unpruned" "all_deltas (prune unpruned) = all_deltas unpruned"
    "pruned (prune unpruned)"
    "pruned (RichDict [] :: string diff_node)"
    "pruned (RichDict [(''points'', RichDict [(''feature'', RichDict [(''3'', Delta ''+3'')])])])"
    using dataset_diff_run repo_diff_run by blast+
  then show ?thesis using p d dataset_diff_run repo_diff_run by simp
qed

section \<open>Properties of resolve and finalize\<close>

lemma unresolved_meta_after:
  "unresolved_meta (mi\<lparr>resolves := AList.update km vm (resolves mi)\<rparr>) dataset
     = filter (\<lambda>k. k \<noteq> km) (unresolved_meta mi dataset)"
  unfolding unresolved_meta_def filter_filter
  by (intro filter_cong) (auto simp: update_conv')

text \<open>
  C4. For every dataset with at least one unresolved meta-item conflict, resolving a
  feature conflict of that dataset fails with \<open>InvalidOperation\<close>; once the meta conflict
  is resolved (here: the only one that was unresolved), resolving the same feature
  conflict succeeds and records the chosen versions.
\<close>

theorem meta_conflicts_gate_features:
  "(key_kind k = Feature_item \<and> unresolved_meta mi (key_dataset k) \<noteq> []
      \<longrightarrow> resolve mi k vs = Inl (InvalidOperation INVALID_OPERATION)) \<and>
   (unresolved_meta mi (key_dataset k) = [km]
      \<longrightarrow> (\<exists>mi1 mi2. resolve mi km vm = Inr mi1 \<and> unresolved_meta mi1 (key_dataset k) = [] \<and>
             resolve mi1 k vs = Inr mi2 \<and> map_of (resolves mi2) k = Some vs))"
proof (intro conjI impI)
  assume "key_kind k = Feature_item \<and> unresolved_meta mi (key_dataset k) \<noteq> []"
  then show "resolve mi k vs = Inl (InvalidOperation INVALID_OPERATION)"
    by (simp add: resolve_def)
next
  assume one: "unresolved_meta mi (key_dataset k) = [km]"
  then have "km \<in> set (unresolved_meta mi (key_dataset k))" by simp
  then have meta: "key_kind km = Meta_item" by (simp add: unresolved_meta_def)
  let ?mi1 = "mi\<lparr>resolves := AList.update km vm (resolves mi)\<rparr>"
  let ?mi2 = "?mi1\<lparr>resolves := AList.update k vs (resolves ?mi1)\<rparr>"
  have r1: "resolve mi km vm = Inr ?mi1" using meta by (simp add: resolve_def)
  have none: "unresolved_meta ?mi1 (key_dataset k) = []"
    using one by (simp add: unresolved_meta_after)
  have r2: "resolve ?mi1 k vs = Inr ?mi2" using none by (simp add: resolve_def)
  have "map_of (resolves ?mi2) k = Some vs" by (simp add: update_conv')
  with r1 none r2 show "\<exists>mi1 mi2. resolve mi km vm = Inr mi1 \<and> unresolved_meta mi1 (key_dataset k) = [] \<and>
             resolve mi1 k vs = Inr mi2 \<and> map_of (resolves mi2) k = Some vs"
    by blast
qed

lemma merging_facts:
  "unresolved_meta merging (key_dataset feature_key) = [schema_key]"
  "key_kind feature_key = Feature_item"
  by (simp_all add: unresolved_meta_def merging_def feature_key_def schema_key_def)

theorem meta_conflicts_gate_features_witness:
  "unresolved_meta merging ''nz_waca_adjustments'' = [schema_key] \<and>
   resolve merging feature_key [\<lparr>version_path = feature_path, version_blob = ''f-theirs''\<rparr>]
     = Inl (InvalidOperation INVALID_OPERATION) \<and>
   resolve merging schema_key [\<lparr>version_path = schema_path, version_blob = ''s-theirs''\<rparr>]
     = Inr (merging\<lparr>resolves := [(schema_key, [\<lparr>version_path = schema_path, version_blob = ''s-theirs''\<rparr>])]\<rparr>) \<and>
   resolve (merging\<lparr>resolves := [(schema_key, [\<lparr>version_path = schema_path, version_blob = ''s-theirs''\<rparr>])]\<rparr>)
       feature_key [\<lparr>version_path = feature_path, version_blob = ''f-theirs''\<rparr>]
     = Inr (merging\<lparr>resolves :=
              [(schema_key, [\<lparr>version_path = schema_path, version_blob = ''s-theirs''\<rparr>]),
               (feature_key, [\<lparr>version_path = feature_path, version_blob = ''f-theirs''\<rparr>])]\<rparr>)"
proof -
  let ?vf = "[\<lparr>version_path = feature_path, version_blob = ''f-theirs''\<rparr>]"
  let ?vs = "[\<lparr>version_path = schema_path, version_blob = ''s-theirs''\<rparr>]"
  note inst = meta_conflicts_gate_features[of feature_key merging ?vf schema_key ?vs]
  have ds: "key_dataset feature_key = ''nz_waca_adjustments''" by (simp add: feature_key_def)
  have ne: "schema_key \<noteq> feature_key" by (simp add: schema_key_def feature_key_def)
  from inst[THEN conjunct1] merging_facts
  have blocked: "resolve merging feature_key ?vf = Inl (InvalidOperation INVALID_OPERATION)"
    by simp
  from inst[THEN conjunct2] merging_facts(1)
  obtain mi1 mi2 where r1: "resolve merging schema_key ?vs = Inr mi1"
    and r2: "resolve mi1 feature_key ?vf = Inr mi2"
    by blast
  have e1: "resolve merging schema_key ?vs = Inr (merging\<lparr>resolves := [(schema_key, ?vs)]\<rparr>)"
    by (simp add: resolve_def schema_key_def merging_def)
  with r1 have mi1: "mi1 = merging\<lparr>resolves := [(schema_key, ?vs)]\<rparr>" by simp
  from r2 have "mi2 = mi1\<lparr>resolves := AList.update feature_key ?vf (resolves mi1)\<rparr>"
    by (auto simp: resolve_def split: if_splits)
  then have e2: "mi2 = merging\<lparr>resolves := [(schema_key, ?vs), (feature_key, ?vf)]\<rparr>"
    using mi1 ne by simp
  show ?thesis using merging_facts(1) blocked e1 r2 mi1 e2 ds by simp
qed

lemma delete_paths_apply: "delete_paths ps es p = (if p \<in> set ps then None else es p)"
  unfolding delete_paths_def by (induction ps arbitrary: es) auto

lemma write_versions_other:
  "p \<notin> version_path ` set vs \<Longrightarrow> write_versions vs es p = es p"
  unfolding write_versions_def by (induction vs arbitrary: es) auto

lemma apply_resolution_other:
  "p \<notin> footprint c vs \<Longrightarrow> apply_resolution c vs es p = es p"
  by (simp add: apply_resolution_def footprint_def write_versions_other delete_paths_apply)

lemma apply_resolution_deleted:
  "p \<in> set (conflict_paths c) \<Longrightarrow> p \<notin> version_path ` set vs \<Longrightarrow>
     apply_resolution c vs es p = None"
  by (simp add: apply_resolution_def write_versions_other delete_paths_apply)

lemma apply_resolution_one:
  "apply_resolution c [v] es (version_path v) = Some (version_blob v)"
  by (simp add: apply_resolution_def write_versions_def)

lemma apply_resolution_two:
  "version_path v1 \<noteq> version_path v2 \<Longrightarrow>
     apply_resolution c [v1, v2] es (version_path v1) = Some (version_blob v1) \<and>
     apply_resolution c [v1, v2] es (version_path v2) = Some (version_blob v2)"
  by (simp add: apply_resolution_def write_versions_def)

lemma finalize_conflicts_append:
  "finalize_conflicts (xs @ ys) rs es =
     (case finalize_conflicts xs rs es of Inl e \<Rightarrow> Inl e | Inr es' \<Rightarrow> finalize_conflicts ys rs es')"
  by (induction xs arbitrary: es) (auto split: option.splits)

lemma finalize_conflicts_succeeds:
  "\<forall>k \<in> fst ` set cs. map_of rs k \<noteq> None \<Longrightarrow> \<exists>es'. finalize_conflicts cs rs es = Inr es'"
proof (induction cs arbitrary: es)
  case Nil
  show ?case by simp
next
  case (Cons kc cs)
  obtain k c where kc: "kc = (k, c)" by (cases kc)
  from Cons.prems kc obtain vs where vs: "map_of rs k = Some vs" by auto
  from Cons.prems have "\<forall>k \<in> fst ` set cs. map_of rs k \<noteq> None" by simp
  from Cons.IH[OF this, of "apply_resolution c vs es"] show ?case using kc vs by simp
qed

lemma finalize_conflicts_untouched:
  assumes "finalize_conflicts cs rs es = Inr es'"
    and "\<forall>(k, c) \<in> set cs. p \<notin> footprint c (case map_of rs k of None \<Rightarrow> [] | Some vs \<Rightarrow> vs)"
  shows "es' p = es p"
  using assms
proof (induction cs arbitrary: es)
  case Nil
  then show ?case by simp
next
  case (Cons kc cs)
  obtain k c where kc: "kc = (k, c)" by (cases kc)
  from Cons.prems(1) kc obtain vs where vs: "map_of rs k = Some vs"
    and rest: "finalize_conflicts cs rs (apply_resolution c vs es) = Inr es'"
    by (auto split: option.splits)
  from Cons.prems(2) kc vs have np: "p \<notin> footprint c vs" by simp
  from Cons.prems(2) have
    "\<forall>(k, c) \<in> set cs. p \<notin> footprint c (case map_of rs k of None \<Rightarrow> [] | Some vs \<Rightarrow> vs)"
    by simp
  from Cons.IH[OF rest this] show ?case by (simp add: apply_resolution_other[OF np])
qed

lemma split_at_key:
  "map_of cs k = Some c \<Longrightarrow> distinct (map fst cs) \<Longrightarrow>
     \<exists>pre post. cs = pre @ (k, c) # post \<and> k \<notin> fst ` set pre \<and> k \<notin> fst ` set post"
proof (induction cs)
  case Nil
  then show ?case by simp
next
  case (Cons x cs)
  obtain k' c' where x: "x = (k', c')" by (cases x)
  show ?case
  proof (cases "k' = k")
    case True
    with Cons.prems x have "c' = c" "k \<notin> fst ` set cs" by auto
    with True x show ?thesis by (intro exI[of _ "[]"] exI[of _ cs]) simp
  next
    case False
    with Cons.prems x have "map_of cs k = Some c" "distinct (map fst cs)" by auto
    from Cons.IH[OF this] obtain pre post where
      "cs = pre @ (k, c) # post" "k \<notin> fst ` set pre" "k \<notin> fst ` set post" by blast
    with False x show ?thesis
      by (intro exI[of _ "x # pre"] exI[of _ post]) auto
  qed
qed

text \<open>
  C5. Let \<open>k\<close> be a conflict key of a merge whose other conflicts are resolved and touch
  none of the paths that \<open>k\<close> and its resolution use. Then \<open>resolve(k, vs)\<close> followed by
  finalization gives a merged tree in which: for \<open>vs = [v]\<close>, exactly \<open>v\<close> is at the
  identity of \<open>v\<close>; for \<open>vs = []\<close>, the identity of the conflict is gone; for
  \<open>vs = [v1, v2]\<close> with two distinct identities, both are present. Every path of the
  conflict that no resolved version takes is gone.
\<close>

theorem resolution_round_trip:
  assumes res: "resolve mi k vs = Inr mi'"
    and kc: "map_of (conflicts mi) k = Some c"
    and dist: "distinct (map fst (conflicts mi))"
    and others: "others_resolved mi k"
    and alone: "on_its_own mi k c vs"
  shows "\<exists>merged. finalize mi' = Inr merged \<and>
           (\<forall>p \<in> set (conflict_paths c). p \<notin> version_path ` set vs \<longrightarrow> merged p = None) \<and>
           (\<forall>v. vs = [v] \<longrightarrow> merged (version_path v) = Some (version_blob v)) \<and>
           (\<forall>v1 v2. vs = [v1, v2] \<and> version_path v1 \<noteq> version_path v2 \<longrightarrow>
              merged (version_path v1) = Some (version_blob v1) \<and>
              merged (version_path v2) = Some (version_blob v2))"
proof -
  let ?rs = "AList.update k vs (resolves mi)"
  from res have mi': "mi' = mi\<lparr>resolves := ?rs\<rparr>"
    by (auto simp: resolve_def split: if_splits)
  from split_at_key[OF kc dist] obtain pre post where
    cs: "conflicts mi = pre @ (k, c) # post" and kpre: "k \<notin> fst ` set pre"
    and kpost: "k \<notin> fst ` set post"
    by blast
  have all: "\<forall>k' \<in> fst ` set (conflicts mi). map_of ?rs k' \<noteq> None"
    using others by (auto simp: others_resolved_def list_all_iff update_conv')
  then have "\<forall>k' \<in> fst ` set pre. map_of ?rs k' \<noteq> None" using cs by auto
  from finalize_conflicts_succeeds[OF this] obtain es1 where
    f1: "finalize_conflicts pre ?rs (entries mi) = Inr es1" by blast
  let ?es2 = "apply_resolution c vs es1"
  from all have "\<forall>k' \<in> fst ` set post. map_of ?rs k' \<noteq> None" using cs by auto
  from finalize_conflicts_succeeds[OF this] obtain merged where
    f3: "finalize_conflicts post ?rs ?es2 = Inr merged" by blast
  have fin: "finalize mi' = Inr merged"
    using f1 f3 by (simp add: finalize_def mi' cs finalize_conflicts_append update_conv')
  have keep: "merged p = ?es2 p" if p: "p \<in> footprint c vs" for p
  proof (rule finalize_conflicts_untouched[OF f3])
    show "\<forall>(k', c') \<in> set post.
            p \<notin> footprint c' (case map_of ?rs k' of None \<Rightarrow> [] | Some vs' \<Rightarrow> vs')"
    proof (clarify)
      fix k' c'
      assume in_post: "(k', c') \<in> set post"
        and hit: "p \<in> footprint c' (case map_of ?rs k' of None \<Rightarrow> [] | Some vs' \<Rightarrow> vs')"
      from in_post kpost have ne: "k' \<noteq> k" by force
      from in_post cs have "(k', c') \<in> set (conflicts mi)" by simp
      with alone ne have
        "footprint c' (case map_of (resolves mi) k' of None \<Rightarrow> [] | Some vs' \<Rightarrow> vs')
           \<inter> footprint c vs = {}"
        by (auto simp: on_its_own_def list_all_iff)
      moreover have "map_of ?rs k' = map_of (resolves mi) k'" using ne by (simp add: update_conv')
      ultimately show False using hit p by auto
    qed
  qed
  have a: "\<forall>p \<in> set (conflict_paths c). p \<notin> version_path ` set vs \<longrightarrow> merged p = None"
  proof (intro ballI impI)
    fix p assume p: "p \<in> set (conflict_paths c)" and n: "p \<notin> version_path ` set vs"
    from p have "p \<in> footprint c vs" by (simp add: footprint_def)
    from keep[OF this] apply_resolution_deleted[OF p n] show "merged p = None" by simp
  qed
  have b: "\<forall>v. vs = [v] \<longrightarrow> merged (version_path v) = Some (version_blob v)"
  proof (intro allI impI)
    fix v assume v: "vs = [v]"
    then have "version_path v \<in> footprint c vs" by (simp add: footprint_def)
    from keep[OF this] show "merged (version_path v) = Some (version_blob v)"
      using v by (simp add: apply_resolution_one)
  qed
  have d: "\<forall>v1 v2. vs = [v1, v2] \<and> version_path v1 \<noteq> version_path v2 \<longrightarrow>
              merged (version_path v1) = Some (version_blob v1) \<and>
              merged (version_path v2) = Some (version_blob v2)"
  proof (intro allI impI)
    fix v1 v2 assume v: "vs = [v1, v2] \<and> version_path v1 \<noteq> version_path v2"
    then have "version_path v1 \<in> footprint c vs" "version_path v2 \<in> footprint c vs"
      by (simp_all add: footprint_def)
    from keep[OF this(1)] keep[OF this(2)] apply_resolution_two[of v1 v2 c es1] v
    show "merged (version_path v1) = Some (version_blob v1) \<and>
              merged (version_path v2) = Some (version_blob v2)"
      by simp
  qed
  from fin a b d show ?thesis by blast
qed

lemma schema_resolved_facts:
  "map_of (conflicts schema_resolved) feature_key = Some feature_conflict"
  "distinct (map fst (conflicts schema_resolved))"
  "others_resolved schema_resolved feature_key"
  "conflict_paths feature_conflict = [feature_path, feature_path]"
  by (simp_all add: schema_resolved_def merging_def feature_conflict_def feature_key_def
      schema_key_def others_resolved_def conflict_paths_def List.map_filter_simps)

lemma schema_resolved_resolve:
  "resolve schema_resolved feature_key vs
     = Inr (schema_resolved\<lparr>resolves := AList.update feature_key vs (resolves schema_resolved)\<rparr>)"
  by (simp add: resolve_def unresolved_meta_def schema_resolved_def merging_def feature_key_def
      schema_key_def)

lemma schema_resolved_alone:
  "version_path ` set vs \<subseteq> {feature_path, other_path} \<Longrightarrow>
     on_its_own schema_resolved feature_key feature_conflict vs"
  by (auto simp: on_its_own_def schema_resolved_def merging_def feature_key_def schema_key_def
      footprint_def conflict_paths_def List.map_filter_simps feature_conflict_def
      feature_path_def other_path_def schema_path_def)

theorem resolution_round_trip_witness:
  "(case finalize (schema_resolved\<lparr>resolves :=
            AList.update feature_key [ours_version] (resolves schema_resolved)\<rparr>) of
      Inl e \<Rightarrow> False
    | Inr t \<Rightarrow> t feature_path = Some ''f-ours'') \<and>
   (case finalize (schema_resolved\<lparr>resolves :=
            AList.update feature_key [] (resolves schema_resolved)\<rparr>) of
      Inl e \<Rightarrow> False
    | Inr t \<Rightarrow> t feature_path = None) \<and>
   (case finalize (schema_resolved\<lparr>resolves :=
            AList.update feature_key [ours_version, rekeyed_version] (resolves schema_resolved)\<rparr>) of
      Inl e \<Rightarrow> False
    | Inr t \<Rightarrow> t feature_path = Some ''f-ours'' \<and> t other_path = Some ''f-rekeyed'')"
proof -
  have ne: "feature_path \<noteq> other_path" by (simp add: feature_path_def other_path_def)
  have a1: "on_its_own schema_resolved feature_key feature_conflict [ours_version]"
    by (rule schema_resolved_alone) (simp add: ours_version_def)
  have a0: "on_its_own schema_resolved feature_key feature_conflict []"
    by (rule schema_resolved_alone) simp
  have a2: "on_its_own schema_resolved feature_key feature_conflict [ours_version, rekeyed_version]"
    by (rule schema_resolved_alone) (simp add: ours_version_def rekeyed_version_def)
  from resolution_round_trip[OF schema_resolved_resolve schema_resolved_facts(1,2,3) a1]
  obtain t1 where t1: "finalize (schema_resolved\<lparr>resolves :=
            AList.update feature_key [ours_version] (resolves schema_resolved)\<rparr>) = Inr t1"
    "t1 (version_path ours_version) = Some (version_blob ours_version)"
    by blast
  from resolution_round_trip[OF schema_resolved_resolve schema_resolved_facts(1,2,3) a0]
  obtain t0 where t0: "finalize (schema_resolved\<lparr>resolves :=
            AList.update feature_key [] (resolves schema_resolved)\<rparr>) = Inr t0"
    "\<forall>p \<in> set (conflict_paths feature_conflict). t0 p = None"
    by auto
  from resolution_round_trip[OF schema_resolved_resolve schema_resolved_facts(1,2,3) a2]
  obtain t2 where t2: "finalize (schema_resolved\<lparr>resolves :=
            AList.update feature_key [ours_version, rekeyed_version] (resolves schema_resolved)\<rparr>) = Inr t2"
    "version_path ours_version \<noteq> version_path rekeyed_version \<longrightarrow>
       t2 (version_path ours_version) = Some (version_blob ours_version) \<and>
       t2 (version_path rekeyed_version) = Some (version_blob rekeyed_version)"
    by blast
  show ?thesis
    using t1 t0 t2 ne
    by (simp add: schema_resolved_facts(4) ours_version_def rekeyed_version_def)
qed

end
